theory Spec2Isabelle
  imports Main
begin

section \<open>Values of the JavaScript runtime\<close>

text \<open>
  The menu scripts handle three kinds of data: the JSON document served as
  \<^verbatim>\<open>data/menu.json\<close>, the strings kept in \<^verbatim>\<open>localStorage\<close>, and DOM elements.
  A parsed JSON document is a value of \<open>json\<close>. Its numbers are the integers (millisecond
  timestamps, whole prices; the prices the renderers read are modelled apart, with every
  number a price can be); an object is the list of its own properties in the order
  \<^verbatim>\<open>Object.keys\<close> enumerates them. A JavaScript value that may be \<^verbatim>\<open>undefined\<close> is a
  \<open>json option\<close>, with \<open>None\<close> for \<^verbatim>\<open>undefined\<close> and \<open>Some JNull\<close> for \<^verbatim>\<open>null\<close>.
  Strings are lists of 8-bit characters; the two accented letters of the scripts'
  messages are written by their Latin-1 code.
\<close>

datatype json =
    JNull
  | JBool bool
  | JNum int
  | JStr string
  | JArr "json list"
  | JObj "(string \<times> json) list"

type_synonym jsval = "json option"

abbreviation undefined_js :: jsval where
  "undefined_js \<equiv> None"

abbreviation null_js :: jsval where
  "null_js \<equiv> Some JNull"

text \<open>Truthiness, as \<^verbatim>\<open>!x\<close> and \<^verbatim>\<open>if (x)\<close> see it.\<close>

fun truthy :: "jsval \<Rightarrow> bool" where
  "truthy None = False"
| "truthy (Some JNull) = False"
| "truthy (Some (JBool b)) = b"
| "truthy (Some (JNum n)) = (n \<noteq> 0)"
| "truthy (Some (JStr s)) = (s \<noteq> [])"
| "truthy (Some (JArr xs)) = True"
| "truthy (Some (JObj kvs)) = True"

text \<open>The \<^verbatim>\<open>typeof\<close> operator: arrays and \<^verbatim>\<open>null\<close> are both \<^verbatim>\<open>'object'\<close>.\<close>

fun typeof :: "jsval \<Rightarrow> string" where
  "typeof None = ''undefined''"
| "typeof (Some JNull) = ''object''"
| "typeof (Some (JBool b)) = ''boolean''"
| "typeof (Some (JNum n)) = ''number''"
| "typeof (Some (JStr s)) = ''string''"
| "typeof (Some (JArr xs)) = ''object''"
| "typeof (Some (JObj kvs)) = ''object''"

text \<open>
  An exception is the message of the thrown \<^verbatim>\<open>Error\<close>; a call either returns or throws.
\<close>

datatype 'a completion = Return 'a | Throw string

text \<open>
  Reading a fixed property \<^verbatim>\<open>v.name\<close> of a parsed value: a \<^verbatim>\<open>TypeError\<close> on \<^verbatim>\<open>null\<close>,
  the own property of an object, and \<^verbatim>\<open>undefined\<close> where there is none. The names read
  this way (\<^verbatim>\<open>timestamp\<close>, \<^verbatim>\<open>data\<close>) are not members of any prototype.
\<close>

fun get_prop :: "json \<Rightarrow> string \<Rightarrow> jsval completion" where
  "get_prop JNull k = Throw ''Cannot read properties of null''"
| "get_prop (JObj kvs) k = Return (map_of kvs k)"
| "get_prop v k = Return None"

text \<open>
  Numeric conversion for the subtraction \<^verbatim>\<open>Date.now() - cacheData.timestamp\<close>; \<open>None\<close> is
  \<^verbatim>\<open>NaN\<close>. Strings, arrays and objects convert through their text; the cache only ever
  writes a number here, and the model maps the others to \<^verbatim>\<open>NaN\<close>.
\<close>

fun to_number :: "jsval \<Rightarrow> int option" where
  "to_number (Some (JNum n)) = Some n"
| "to_number (Some JNull) = Some 0"
| "to_number (Some (JBool b)) = Some (if b then 1 else 0)"
| "to_number v = None"

text \<open>\<^verbatim>\<open>a - b\<close> and \<^verbatim>\<open>a > b\<close> on numbers that may be \<^verbatim>\<open>NaN\<close>.\<close>

definition js_minus :: "int option \<Rightarrow> int option \<Rightarrow> int option" where
  "js_minus a b = (case (a, b) of (Some x, Some y) \<Rightarrow> Some (x - y) | _ \<Rightarrow> None)"

definition js_greater :: "int option \<Rightarrow> int \<Rightarrow> bool" where
  "js_greater a b = (case a of Some x \<Rightarrow> x > b | None \<Rightarrow> False)"

text \<open>Decimal text of a number, as a template literal prints it.\<close>

definition digit_char :: "int \<Rightarrow> char" where
  "digit_char d = char_of (48 + d)"

function show_digits :: "int \<Rightarrow> string" where
  "show_digits n =
     (if n < 10 then [digit_char n] else show_digits (n div 10) @ [digit_char (n mod 10)])"
  by pat_completeness auto
termination
  by (relation "measure nat") auto

declare show_digits.simps [simp del]

definition show_int :: "int \<Rightarrow> string" where
  "show_int i = (if i < 0 then CHR ''-'' # show_digits (- i) else show_digits i)"

definition show_nat :: "nat \<Rightarrow> string" where
  "show_nat n = show_digits (int n)"

text \<open>Reading decimal digits.\<close>

definition is_digit :: "char \<Rightarrow> bool" where
  "is_digit c = (48 \<le> (of_char c :: int) \<and> (of_char c :: int) \<le> 57)"

definition int_of_digits :: "string \<Rightarrow> int" where
  "int_of_digits ds = foldl (\<lambda>n c. 10 * n + ((of_char c :: int) - 48)) 0 ds"

text \<open>
  A JavaScript number, as \<^verbatim>\<open>Number::toString\<close> sees it: \<^verbatim>\<open>NaN\<close>, an infinity (\<open>True\<close> for
  the negative one), zero, or a finite value given by its sign (\<open>True\<close> for negative) and
  its shortest decimal form: the digits \<open>s\<close>, a positive integer that does not end in 0,
  and the exponent \<open>n\<close>, for the value \<open>s \<times> 10\<^sup>n\<^sup>-\<^sup>k\<close> where \<open>k\<close> is the number of digits
  of \<open>s\<close>. So 12 has digits 12 and exponent 2, 12.5 has digits 125 and exponent 2, 0.05 has
  digits 5 and exponent -1, and \<open>10\<^sup>2\<^sup>1\<close> has digits 1 and exponent 22.
\<close>

datatype jsnumber = NaN | Infinity bool | Zero | Finite bool int int

definition shortest_form :: "jsnumber \<Rightarrow> bool" where
  "shortest_form x =
     (case x of Finite negative s n \<Rightarrow> 0 < s \<and> s mod 10 \<noteq> 0 | _ \<Rightarrow> True)"

text \<open>
  \<^verbatim>\<open>Number::toString\<close> in radix 10 on a positive finite number: plain digits with zeros
  appended for a whole number below \<open>10\<^sup>2\<^sup>1\<close>, digits with a point inside, \<^verbatim>\<open>0.\<close> and zeros
  before the digits down to \<open>10\<^sup>-\<^sup>6\<close>, and exponent form otherwise.
\<close>

definition digits_toString :: "int \<Rightarrow> int \<Rightarrow> string" where
  "digits_toString s n =
     (let ds = show_digits s; k = int (length ds) in
      if k \<le> n \<and> n \<le> 21 then ds @ replicate (nat (n - k)) (CHR ''0'')
      else if 0 < n \<and> n \<le> 21 then take (nat n) ds @ CHR ''.'' # drop (nat n) ds
      else if - 6 < n \<and> n \<le> 0 then ''0.'' @ replicate (nat (- n)) (CHR ''0'') @ ds
      else (let e = n - 1;
                exponent = (if e < 0 then CHR ''-'' else CHR ''+'') # show_digits (abs e)
            in if k = 1 then ds @ CHR ''e'' # exponent
               else take 1 ds @ CHR ''.'' # drop 1 ds @ CHR ''e'' # exponent))"

fun Number_toString :: "jsnumber \<Rightarrow> string" where
  "Number_toString NaN = ''NaN''"
| "Number_toString (Infinity negative) = (if negative then ''-Infinity'' else ''Infinity'')"
| "Number_toString Zero = ''0''"
| "Number_toString (Finite negative s n) =
     (if negative then CHR ''-'' # digits_toString s n else digits_toString s n)"


section \<open>The runtime's JSON codec and localStorage\<close>

text \<open>
  \<^verbatim>\<open>JSON.parse\<close>, \<^verbatim>\<open>JSON.stringify\<close> and \<^verbatim>\<open>String.prototype.toUpperCase\<close> belong to the
  browser, not to the scripts; the functions that call them take them as a parameter. \<open>JSON_parse\<close> gives \<open>None\<close> where the
  browser throws a \<^verbatim>\<open>SyntaxError\<close>.
\<close>

record runtime =
  JSON_parse :: "string \<Rightarrow> json option"
  JSON_stringify :: "json \<Rightarrow> string"
  String_toUpperCase :: "string \<Rightarrow> string"

text \<open>
  \<^verbatim>\<open>localStorage\<close> maps keys to strings. Every access throws when storage is disabled,
  and \<^verbatim>\<open>setItem\<close> throws when the value does not fit the quota; \<open>None\<close> is the throw.
\<close>

record localStorage =
  items :: "string \<rightharpoonup> string"
  available :: bool
  quota :: nat

definition getItem :: "localStorage \<Rightarrow> string \<Rightarrow> string option option" where
  "getItem ls k = (if available ls then Some (items ls k) else None)"

definition setItem :: "localStorage \<Rightarrow> string \<Rightarrow> string \<Rightarrow> localStorage option" where
  "setItem ls k v =
     (if available ls \<and> length v \<le> quota ls
      then Some (ls\<lparr>items := (items ls)(k \<mapsto> v)\<rparr>) else None)"

definition removeItem :: "localStorage \<Rightarrow> string \<Rightarrow> localStorage option" where
  "removeItem ls k =
     (if available ls then Some (ls\<lparr>items := (items ls)(k := None)\<rparr>) else None)"


section \<open>menu-loader.js: configuration and cache\<close>

definition cacheKey :: string where
  "cacheKey = ''arboleda_menu_cache''"

definition cacheExpiry :: int where
  "cacheExpiry = 1000 * 60 * 60 * 24"

definition animationDelay :: nat where
  "animationDelay = 50"

text \<open>
  \<^verbatim>\<open>saveToCache(data)\<close>: wraps the data with the current time and stores the text; a
  throwing \<^verbatim>\<open>setItem\<close> is caught and only logged. \<open>now\<close> is the value of \<^verbatim>\<open>Date.now()\<close>.
\<close>

definition cacheData_of :: "json \<Rightarrow> int \<Rightarrow> json" where
  "cacheData_of d now = JObj [(''data'', d), (''timestamp'', JNum now)]"

definition saveToCache :: "runtime \<Rightarrow> int \<Rightarrow> json \<Rightarrow> localStorage \<Rightarrow> localStorage" where
  "saveToCache rt now d ls =
     (case setItem ls cacheKey (JSON_stringify rt (cacheData_of d now)) of
        Some ls' \<Rightarrow> ls'
      | None \<Rightarrow> ls)"

text \<open>
  \<^verbatim>\<open>getFromCache()\<close>: every exception inside the \<^verbatim>\<open>try\<close> (storage disabled, unparsable
  text, a stored \<^verbatim>\<open>null\<close>) ends in \<^verbatim>\<open>return null\<close>. The result is the returned value with
  the storage after the call.
\<close>

definition getFromCache :: "runtime \<Rightarrow> int \<Rightarrow> localStorage \<Rightarrow> jsval \<times> localStorage" where
  "getFromCache rt now ls =
     (case getItem ls cacheKey of
        None \<Rightarrow> (null_js, ls)
      | Some None \<Rightarrow> (null_js, ls)
      | Some (Some cached) \<Rightarrow>
          if cached = [] then (null_js, ls)
          else (case JSON_parse rt cached of
                  None \<Rightarrow> (null_js, ls)
                | Some cacheData \<Rightarrow>
                    (case get_prop cacheData ''timestamp'' of
                       Throw e \<Rightarrow> (null_js, ls)
                     | Return ts \<Rightarrow>
                         let age = js_minus (Some now) (to_number ts) in
                         if js_greater age cacheExpiry
                         then (case removeItem ls cacheKey of
                                 None \<Rightarrow> (null_js, ls)
                               | Some ls' \<Rightarrow> (null_js, ls'))
                         else (case get_prop cacheData ''data'' of
                                 Throw e \<Rightarrow> (null_js, ls)
                               | Return d \<Rightarrow> (d, ls)))))"


section \<open>The menu data and the page\<close>

text \<open>
  A dish is an object with the four fields the scripts read; its price is a number or a
  string. A catalog is the parsed menu: an object whose own properties are the
  categories, listed here in the order they were created (the order of the JSON text),
  each name once, each with its array of dishes.
\<close>

datatype price = PriceNumber jsnumber | PriceString string

record dish =
  nombre :: string
  descripcion :: string
  precio :: price
  imagen :: string

type_synonym catalog = "(string \<times> dish list) list"

text \<open>
  A property name is an array index when it is the canonical decimal text of an integer
  from 0 to \<open>2\<^sup>3\<^sup>2 - 2\<close>.
\<close>

definition array_index :: "string \<Rightarrow> int option" where
  "array_index s =
     (if s \<noteq> [] \<and> list_all is_digit s \<and> (length s = 1 \<or> hd s \<noteq> CHR ''0'')
         \<and> int_of_digits s \<le> 4294967294
      then Some (int_of_digits s) else None)"

definition index_of :: "string \<Rightarrow> int" where
  "index_of s = (case array_index s of None \<Rightarrow> 0 | Some i \<Rightarrow> i)"

text \<open>
  The own properties in the order \<^verbatim>\<open>Object.keys\<close> lists them: the array indices in
  ascending numeric order, then the other names in creation order.
\<close>

definition own_properties :: "catalog \<Rightarrow> catalog" where
  "own_properties d =
     sort_key (\<lambda>kv. index_of (fst kv)) (filter (\<lambda>kv. array_index (fst kv) \<noteq> None) d)
     @ filter (\<lambda>kv. array_index (fst kv) = None) d"

definition Object_keys :: "catalog \<Rightarrow> string list" where
  "Object_keys d = map fst (own_properties d)"

text \<open>
  The members every object inherits from \<^verbatim>\<open>Object.prototype\<close>: the functions with their
  \<^verbatim>\<open>length\<close>, and \<^verbatim>\<open>__proto__\<close>, whose getter gives the prototype object, which has no
  \<^verbatim>\<open>length\<close>. None of them has a \<^verbatim>\<open>forEach\<close>.
\<close>

definition Object_prototype :: "(string \<times> nat option) list" where
  "Object_prototype =
     [(''constructor'', Some 1),
      (''__defineGetter__'', Some 2),
      (''__defineSetter__'', Some 2),
      (''hasOwnProperty'', Some 1),
      (''__lookupGetter__'', Some 1),
      (''__lookupSetter__'', Some 1),
      (''isPrototypeOf'', Some 1),
      (''propertyIsEnumerable'', Some 1),
      (''toString'', Some 0),
      (''valueOf'', Some 0),
      (''toLocaleString'', Some 0),
      (''__proto__'', None)]"

text \<open>
  \<^verbatim>\<open>data[cat]\<close>: the dishes of an own property, an inherited member (with its \<^verbatim>\<open>length\<close>,
  if it has one), or \<^verbatim>\<open>undefined\<close>.
\<close>

datatype member = Own "dish list" | Inherited "nat option" | Undefined

definition get_member :: "catalog \<Rightarrow> string \<Rightarrow> member" where
  "get_member d cat =
     (case map_of d cat of
        Some platos \<Rightarrow> Own platos
      | None \<Rightarrow>
          (case map_of Object_prototype cat of
             Some len \<Rightarrow> Inherited len
           | None \<Rightarrow> Undefined))"

text \<open>What \<^verbatim>\<open>${plato.precio}\<close> inserts: a string as it is, a number through \<^verbatim>\<open>Number::toString\<close>.\<close>

fun to_string :: "price \<Rightarrow> string" where
  "to_string (PriceNumber x) = Number_toString x"
| "to_string (PriceString s) = s"

datatype view = Detailed | Simple

text \<open>
  A card of the detailed view: its attributes, the markup assigned to its \<^verbatim>\<open>innerHTML\<close>,
  and the dish its click and key handlers pass to \<^verbatim>\<open>openMenuModal\<close>.
\<close>

record card =
  card_classes :: "string list"
  card_tabIndex :: int
  card_role :: string
  card_aria_label :: string
  card_innerHTML :: string
  card_opens :: dish

text \<open>
  The children of the two menu containers: a card with the delay (ms) after which it gets
  the class \<^verbatim>\<open>visible\<close>, a category heading with its text, a list with the \<^verbatim>\<open>innerHTML\<close> of
  each of its items, or the paragraph of the empty-state markup with its text.
\<close>

datatype node =
    Card card nat
  | Heading string
  | ItemList "string list"
  | Paragraph string

record element =
  classes :: "string list"
  style_display :: string
  rect_top :: int
  children :: "node list"

text \<open>An element matched by the filter selectors, with the attributes the filters use.\<close>

record control =
  classList :: "string list"
  textContent :: string
  dataset_category :: "string option"
  aria_label :: "string option"
  aria_pressed :: "string option"

text \<open>
  The page as the loader and the filters see it. The first five fields are the
  \<^verbatim>\<open>MenuState\<close> singleton (\<open>None\<close> in \<open>data\<close> and \<open>error\<close> is \<^verbatim>\<open>null\<close>); \<open>loaderPresent\<close> says
  that \<^verbatim>\<open>window.MenuLoader\<close> exists; the elements are \<open>None\<close> when the document lacks them;
  \<open>controls\<close> are the document's elements in tree order; \<open>announcer\<close> is the text of
  \<^verbatim>\<open>#filter-announcer\<close> once created; \<open>scrolledTo\<close> is the last \<^verbatim>\<open>window.scrollTo\<close> target.
\<close>

record 'd page =
  data :: "'d option"
  activeCategory :: "string option"
  activeView :: view
  isLoading :: bool
  error :: "string option"
  loaderPresent :: bool
  menuGrid :: "element option"
  menuSimple :: "element option"
  loadingState :: "element option"
  errorState :: "element option"
  storage :: localStorage
  controls :: "control list"
  announcer :: "string option"
  pageYOffset :: int
  scrolledTo :: "int option"

definition classList_add :: "string \<Rightarrow> string list \<Rightarrow> string list" where
  "classList_add c cs = (if c \<in> set cs then cs else cs @ [c])"

definition classList_remove :: "string \<Rightarrow> string list \<Rightarrow> string list" where
  "classList_remove c cs = filter (\<lambda>x. x \<noteq> c) cs"

definition classList_toggle :: "string \<Rightarrow> bool \<Rightarrow> string list \<Rightarrow> string list" where
  "classList_toggle c force cs = (if force then classList_add c cs else classList_remove c cs)"

definition add_class :: "string \<Rightarrow> element option \<Rightarrow> element option" where
  "add_class c e = map_option (\<lambda>x. x\<lparr>classes := classList_add c (classes x)\<rparr>) e"

definition remove_class :: "string \<Rightarrow> element option \<Rightarrow> element option" where
  "remove_class c e = map_option (\<lambda>x. x\<lparr>classes := classList_remove c (classes x)\<rparr>) e"

definition set_display :: "string \<Rightarrow> element option \<Rightarrow> element option" where
  "set_display v e = map_option (\<lambda>x. x\<lparr>style_display := v\<rparr>) e"


section \<open>menu-loader.js: loading\<close>

definition showLoading :: "'d page \<Rightarrow> 'd page" where
  "showLoading p =
     p\<lparr>loadingState := remove_class ''hidden'' (loadingState p),
       errorState := add_class ''hidden'' (errorState p),
       menuGrid := set_display ''none'' (menuGrid p),
       menuSimple := set_display ''none'' (menuSimple p)\<rparr>"

definition hideLoading :: "'d page \<Rightarrow> 'd page" where
  "hideLoading p =
     (let p1 = p\<lparr>loadingState := add_class ''hidden'' (loadingState p)\<rparr> in
      if activeView p1 = Detailed \<and> menuGrid p1 \<noteq> None
      then p1\<lparr>menuGrid := set_display ''grid'' (menuGrid p1)\<rparr>
      else if activeView p1 = Simple \<and> menuSimple p1 \<noteq> None
      then p1\<lparr>menuSimple := set_display ''block'' (menuSimple p1)\<rparr>
      else p1)"

definition showError :: "'d page \<Rightarrow> 'd page" where
  "showError p =
     p\<lparr>loadingState := add_class ''hidden'' (loadingState p),
       errorState := remove_class ''hidden'' (errorState p),
       menuGrid := set_display ''none'' (menuGrid p),
       menuSimple := set_display ''none'' (menuSimple p)\<rparr>"

text \<open>
  The outcome of \<^verbatim>\<open>fetch(CONFIG.jsonUrl)\<close>: a rejected promise, or a response with its
  status and with what \<^verbatim>\<open>response.json()\<close> gives, the parsed body or a rejection.
  \<^verbatim>\<open>response.ok\<close> is the status range 200 to 299.
\<close>

datatype body = JsonBody json | BodyError string

datatype fetch_outcome = NetworkFailure string | Response nat body

definition response_ok :: "nat \<Rightarrow> bool" where
  "response_ok status = (200 \<le> status \<and> status \<le> 299)"

definition invalid_format :: string where
  "invalid_format = ''Formato de datos inv'' @ [CHR 0xE1] @ ''lido''"

text \<open>The \<^verbatim>\<open>catch\<close> block of \<^verbatim>\<open>loadMenuData\<close>.\<close>

definition load_failed :: "string \<Rightarrow> json page \<Rightarrow> jsval completion \<times> json page" where
  "load_failed message p = (Throw message, showError (p\<lparr>isLoading := False, error := Some message\<rparr>))"

text \<open>
  \<^verbatim>\<open>loadMenuData()\<close>. \<open>now_read\<close> and \<open>now_save\<close> are the two readings of \<^verbatim>\<open>Date.now()\<close>,
  inside \<^verbatim>\<open>getFromCache\<close> and inside \<^verbatim>\<open>saveToCache\<close>; \<open>net\<close> is what the fetch gives if it is
  issued. The result is what the returned promise settles with, and the page after the call;
  no other handler runs while the fetch is awaited.
\<close>

definition loadMenuData ::
  "runtime \<Rightarrow> int \<Rightarrow> fetch_outcome \<Rightarrow> int \<Rightarrow> json page \<Rightarrow> jsval completion \<times> json page" where
  "loadMenuData rt now_read net now_save p =
     (let p1 = showLoading (p\<lparr>isLoading := True\<rparr>);
          (cachedData, ls) = getFromCache rt now_read (storage p1);
          p2 = p1\<lparr>storage := ls\<rparr>
      in if truthy cachedData
         then (Return cachedData, p2\<lparr>data := cachedData, isLoading := False\<rparr>)
         else (case net of
                 NetworkFailure message \<Rightarrow> load_failed message p2
               | Response status b \<Rightarrow>
                   if \<not> response_ok status
                   then load_failed (''HTTP error! status: '' @ show_nat status) p2
                   else (case b of
                           BodyError message \<Rightarrow> load_failed message p2
                         | JsonBody d \<Rightarrow>
                             if \<not> truthy (Some d) \<or> typeof (Some d) \<noteq> ''object''
                             then load_failed invalid_format p2
                             else (Return (Some d),
                                   p2\<lparr>storage := saveToCache rt now_save d (storage p2),
                                      data := Some d, isLoading := False, error := None\<rparr>))))"


section \<open>menu-loader.js: rendering\<close>

definition no_items :: string where
  "no_items = ''No hay platos en esta categor'' @ [CHR 0xED] @ ''a.''"

text \<open>The \<^verbatim>\<open>TypeError\<close> of calling \<^verbatim>\<open>data[cat].forEach\<close> on a value that has no such method.\<close>

definition not_a_function :: string where
  "not_a_function = ''data[cat].forEach is not a function''"

text \<open>\<^verbatim>\<open>capitalizeFirst(str)\<close>: \<^verbatim>\<open>str.charAt(0).toUpperCase() + str.slice(1)\<close>.\<close>

definition capitalizeFirst :: "runtime \<Rightarrow> string \<Rightarrow> string" where
  "capitalizeFirst rt str = String_toUpperCase rt (take 1 str) @ drop 1 str"

text \<open>
  The template literal of \<^verbatim>\<open>createMenuCard\<close>, cut at the price: the markup up to the
  opening tag of the price paragraph, and the markup after its text.
\<close>

definition card_head :: "dish \<Rightarrow> string" where
  \<open>card_head plato =
     ''\<newline>    <img \<newline>      src="'' @ imagen plato @ ''" \<newline>      alt="'' @ nombre plato
     @ ''"\<newline>      class="menu-item__image"\<newline>      loading="lazy"\<newline>    >\<newline>''
     @ ''    <div class="menu-item__content">\<newline>      <h3 class="menu-item__title">''
     @ nombre plato @ ''</h3>\<newline>      <p class="menu-item__price">''\<close>

definition card_tail :: string where
  "card_tail = ''</p>\<newline>    </div>\<newline>  ''"

text \<open>\<^verbatim>\<open>createMenuCard(plato, index)\<close>; the body does not use \<open>index\<close>.\<close>

definition createMenuCard :: "dish \<Rightarrow> nat \<Rightarrow> card" where
  "createMenuCard plato index =
     \<lparr>card_classes = [''menu-item''],
      card_tabIndex = 0,
      card_role = ''button'',
      card_aria_label = ''Ver detalles de '' @ nombre plato,
      card_innerHTML = card_head plato @ ''S/ '' @ to_string (precio plato) @ card_tail,
      card_opens = plato\<rparr>"

text \<open>
  The two nested \<^verbatim>\<open>forEach\<close> loops of \<^verbatim>\<open>renderDetailedView\<close>, carrying \<open>itemIndex\<close> and the
  children appended so far. A category name that reaches an inherited member passes the
  test \<^verbatim>\<open>!data[cat]\<close>, and the call of its \<^verbatim>\<open>forEach\<close> throws.
\<close>

fun append_cards :: "dish list \<Rightarrow> nat \<Rightarrow> node list \<Rightarrow> nat \<times> node list" where
  "append_cards [] itemIndex kids = (itemIndex, kids)"
| "append_cards (plato # rest) itemIndex kids =
     append_cards rest (Suc itemIndex)
       (kids @ [Card (createMenuCard plato itemIndex) (itemIndex * animationDelay)])"

fun detailed_loop ::
  "catalog \<Rightarrow> string list \<Rightarrow> nat \<Rightarrow> node list \<Rightarrow> unit completion \<times> nat \<times> node list" where
  "detailed_loop d [] itemIndex kids = (Return (), itemIndex, kids)"
| "detailed_loop d (cat # cats) itemIndex kids =
     (case get_member d cat of
        Undefined \<Rightarrow> detailed_loop d cats itemIndex kids
      | Inherited len \<Rightarrow> (Throw not_a_function, itemIndex, kids)
      | Own platos \<Rightarrow>
          (case append_cards platos itemIndex kids of
             (i, ks) \<Rightarrow> detailed_loop d cats i ks))"

text \<open>The parameter default \<^verbatim>\<open>category = 'all'\<close> applies when the argument is \<^verbatim>\<open>undefined\<close>.\<close>

definition category_or_all :: "string option \<Rightarrow> string" where
  "category_or_all category = (case category of None \<Rightarrow> ''all'' | Some c \<Rightarrow> c)"

definition categories_of :: "catalog \<Rightarrow> string \<Rightarrow> string list" where
  "categories_of d category = (if category = ''all'' then Object_keys d else [category])"

text \<open>
  \<^verbatim>\<open>renderDetailedView(data, category)\<close>: the container is emptied, the loops append the
  cards, and the empty-state markup replaces them when the counter is still 0. A throw
  inside the loops leaves the container as the loops left it.
\<close>

definition renderDetailedView ::
  "catalog \<Rightarrow> string option \<Rightarrow> 'd page \<Rightarrow> unit completion \<times> 'd page" where
  "renderDetailedView d category p =
     (case menuGrid p of
        None \<Rightarrow> (Return (), p)
      | Some grid \<Rightarrow>
          (case detailed_loop d (categories_of d (category_or_all category)) 0 [] of
             (Return u, itemIndex, kids) \<Rightarrow>
               (Return (),
                p\<lparr>menuGrid :=
                    Some (grid\<lparr>children := (if itemIndex = 0 then [Paragraph no_items] else kids)\<rparr>)\<rparr>)
           | (Throw e, itemIndex, kids) \<Rightarrow>
               (Throw e, p\<lparr>menuGrid := Some (grid\<lparr>children := kids\<rparr>)\<rparr>)))"

text \<open>The template literal of a list item of the simple view.\<close>

definition simple_item :: "dish \<Rightarrow> string" where
  "simple_item plato =
     ''\<newline>        <span>'' @ nombre plato @ ''</span>\<newline>        <span>S/ ''
     @ to_string (precio plato) @ ''</span>\<newline>      ''"

text \<open>
  The loop of \<^verbatim>\<open>renderSimpleView\<close>. An inherited member whose \<^verbatim>\<open>length\<close> is 0 is skipped as
  an empty category is; any other one gets its heading before the call of its \<^verbatim>\<open>forEach\<close>
  throws.
\<close>

fun simple_loop ::
  "runtime \<Rightarrow> catalog \<Rightarrow> string list \<Rightarrow> node list \<Rightarrow> unit completion \<times> node list" where
  "simple_loop rt d [] kids = (Return (), kids)"
| "simple_loop rt d (cat # cats) kids =
     (case get_member d cat of
        Undefined \<Rightarrow> simple_loop rt d cats kids
      | Inherited len \<Rightarrow>
          if len = Some 0 then simple_loop rt d cats kids
          else (Throw not_a_function, kids @ [Heading (capitalizeFirst rt cat)])
      | Own platos \<Rightarrow>
          if length platos = 0 then simple_loop rt d cats kids
          else simple_loop rt d cats
                 (kids @ [Heading (capitalizeFirst rt cat), ItemList (map simple_item platos)]))"

definition renderSimpleView ::
  "runtime \<Rightarrow> catalog \<Rightarrow> string option \<Rightarrow> 'd page \<Rightarrow> unit completion \<times> 'd page" where
  "renderSimpleView rt d category p =
     (case menuSimple p of
        None \<Rightarrow> (Return (), p)
      | Some box \<Rightarrow>
          (let categories = categories_of d (category_or_all category) in
           case simple_loop rt d categories [] of
             (Return u, kids) \<Rightarrow>
               (Return (),
                p\<lparr>menuSimple :=
                    Some (box\<lparr>children :=
                      (if length categories = 0 \<or> kids = [] then [Paragraph no_items] else kids)\<rparr>)\<rparr>)
           | (Throw e, kids) \<Rightarrow>
               (Throw e, p\<lparr>menuSimple := Some (box\<lparr>children := kids\<rparr>)\<rparr>)))"


section \<open>menu-filters.js\<close>

definition is_filter_btn :: "control \<Rightarrow> bool" where
  "is_filter_btn b = (''filter-btn'' \<in> set (classList b))"

definition is_active :: "control \<Rightarrow> bool" where
  "is_active b = (''filter-btn--active'' \<in> set (classList b))"

definition bool_string :: "bool \<Rightarrow> string" where
  "bool_string b = (if b then ''true'' else ''false'')"

text \<open>\<^verbatim>\<open>createFilterButton(category, label, isActive)\<close> of the loader.\<close>

definition createFilterButton :: "string \<Rightarrow> string \<Rightarrow> bool \<Rightarrow> control" where
  "createFilterButton category label isActive =
     \<lparr>classList = (if isActive then [''filter-btn'', ''filter-btn--active''] else [''filter-btn'']),
      textContent = label,
      dataset_category = Some category,
      aria_label = Some (''Filtrar por '' @ label),
      aria_pressed = Some (bool_string isActive)\<rparr>"

text \<open>
  \<^verbatim>\<open>updateFilterButtons(activeCategory)\<close>: the body of the \<^verbatim>\<open>forEach\<close>, applied to the elements
  that \<^verbatim>\<open>querySelectorAll('.filter-btn')\<close> selects. The argument is \<open>None\<close> when the caller
  passes \<^verbatim>\<open>undefined\<close> (a clicked button without a category attribute).
\<close>

definition update_button :: "string option \<Rightarrow> control \<Rightarrow> control" where
  "update_button activeCat button =
     (let isActive = (dataset_category button = activeCat) in
      button\<lparr>classList := classList_toggle ''filter-btn--active'' isActive (classList button),
             aria_pressed := Some (bool_string isActive)\<rparr>)"

definition updateFilterButtons :: "string option \<Rightarrow> control list \<Rightarrow> control list" where
  "updateFilterButtons activeCat cs =
     map (\<lambda>b. if is_filter_btn b then update_button activeCat b else b) cs"

definition scrollToMenu :: "'d page \<Rightarrow> 'd page" where
  "scrollToMenu p =
     (let target = (case menuGrid p of
                      None \<Rightarrow> None
                    | Some grid \<Rightarrow> if style_display grid \<noteq> ''none'' then Some grid else menuSimple p)
      in case target of
           None \<Rightarrow> p
         | Some t \<Rightarrow> p\<lparr>scrolledTo := Some (rect_top t + pageYOffset p - 100)\<rparr>)"

definition announceFilterChange :: "string option \<Rightarrow> 'd page \<Rightarrow> 'd page" where
  "announceFilterChange category p =
     (let categoryName = (case category of
                            None \<Rightarrow> ''undefined''
                          | Some c \<Rightarrow> if c = ''all'' then ''todos los platos'' else c)
      in p\<lparr>announcer := Some (''Mostrando '' @ categoryName)\<rparr>)"

text \<open>
  \<^verbatim>\<open>applyFilter(category)\<close>: the state and the buttons are updated first; a throw of the
  renderer leaves the function before the scroll and the announcement.
\<close>

definition applyFilter ::
  "runtime \<Rightarrow> string option \<Rightarrow> catalog page \<Rightarrow> unit completion \<times> catalog page" where
  "applyFilter rt category p =
     (let p1 = (if loaderPresent p then p\<lparr>activeCategory := category\<rparr> else p);
          p2 = p1\<lparr>controls := updateFilterButtons category (controls p1)\<rparr>;
          rendered = (if loaderPresent p2
                      then (case data p2 of
                              None \<Rightarrow> (Return (), p2)
                            | Some d \<Rightarrow>
                                if activeView p2 = Detailed then renderDetailedView d category p2
                                else renderSimpleView rt d category p2)
                      else (Return (), p2))
      in case rendered of
           (Return u, p3) \<Rightarrow> (Return (), announceFilterChange category (scrollToMenu p3))
         | (Throw e, p3) \<Rightarrow> (Throw e, p3))"

text \<open>
  \<^verbatim>\<open>getActiveCategory()\<close>: \<^verbatim>\<open>querySelector\<close> gives the first element in tree order that
  carries the class; the result is \<open>None\<close> when that element has no category attribute.
\<close>

definition getActiveCategory :: "'d page \<Rightarrow> string option" where
  "getActiveCategory p =
     (case find is_active (controls p) of
        None \<Rightarrow> Some ''all''
      | Some activeButton \<Rightarrow> dataset_category activeButton)"

definition resetFilters :: "runtime \<Rightarrow> catalog page \<Rightarrow> unit completion \<times> catalog page" where
  "resetFilters rt p = applyFilter rt (Some ''all'') p"

section \<open>modal.js\<close>

text \<open>
  Elements that can hold the focus are named by numbers. A descendant of the dialog
  carries what the focus-trap selectors test.
\<close>

type_synonym elem_id = nat

record descendant =
  desc_id :: elem_id
  desc_tag :: string
  desc_disabled :: bool
  desc_href :: bool
  desc_tabindex :: "string option"

record modal_element =
  modal_display :: string
  modal_aria_hidden :: "string option"
  modal_opacity :: string
  modal_descendants :: "descendant list"

record image_element =
  image_src :: string
  image_alt :: string

text \<open>The callbacks the modal hands to \<^verbatim>\<open>requestAnimationFrame\<close> and \<^verbatim>\<open>setTimeout\<close>.\<close>

datatype task = FadeIn | FocusCloseBtn | FinishClose

text \<open>
  The state the modal works on: the \<^verbatim>\<open>ModalDOM\<close> elements (\<open>None\<close> when the document
  lacks one; the text slots hold their \<^verbatim>\<open>textContent\<close>), \<^verbatim>\<open>document.activeElement\<close>, the
  elements on which \<^verbatim>\<open>focus()\<close> takes effect, the inline \<^verbatim>\<open>overflow\<close> of the body, the
  \<^verbatim>\<open>modalState\<close> object, and the event loop: the time in ms, the pending callbacks with
  their due times, and the time to the next animation frame.
\<close>

record modal_world =
  modal :: "modal_element option"
  closeBtn :: "elem_id option"
  modalImage :: "image_element option"
  modalTitle :: "string option"
  modalDescription :: "string option"
  modalPrice :: "string option"
  activeElement :: "elem_id option"
  focusable :: "elem_id \<Rightarrow> bool"
  body_overflow :: string
  isOpen :: bool
  lastFocusedElement :: "elem_id option"
  focusableElements :: "elem_id list"
  clock :: nat
  timers :: "(nat \<times> task) list"
  frame_interval :: nat


definition setTimeout :: "task \<Rightarrow> nat \<Rightarrow> modal_world \<Rightarrow> modal_world" where
  "setTimeout k delay w = w\<lparr>timers := timers w @ [(clock w + delay, k)]\<rparr>"

definition requestAnimationFrame :: "task \<Rightarrow> modal_world \<Rightarrow> modal_world" where
  "requestAnimationFrame k w = w\<lparr>timers := timers w @ [(clock w + frame_interval w, k)]\<rparr>"

text \<open>
  The selector list of \<^verbatim>\<open>setupFocusTrap\<close>: enabled buttons, inputs, selects and textareas,
  anything with \<^verbatim>\<open>href\<close>, anything with a \<^verbatim>\<open>tabindex\<close> other than \<^verbatim>\<open>-1\<close>.
\<close>

definition matches_focusable :: "descendant \<Rightarrow> bool" where
  "matches_focusable x =
     ((desc_tag x = ''button'' \<and> \<not> desc_disabled x)
      \<or> desc_href x
      \<or> (desc_tag x = ''input'' \<and> \<not> desc_disabled x)
      \<or> (desc_tag x = ''select'' \<and> \<not> desc_disabled x)
      \<or> (desc_tag x = ''textarea'' \<and> \<not> desc_disabled x)
      \<or> (case desc_tabindex x of None \<Rightarrow> False | Some t \<Rightarrow> t \<noteq> ''-1''))"

definition setupFocusTrap :: "modal_world \<Rightarrow> modal_world" where
  "setupFocusTrap w =
     (case modal w of
        None \<Rightarrow> w
      | Some m \<Rightarrow>
          w\<lparr>focusableElements := map desc_id (filter matches_focusable (modal_descendants m))\<rparr>)"

definition openMenuModal :: "dish \<Rightarrow> modal_world \<Rightarrow> modal_world" where
  "openMenuModal plato w =
     (case modal w of
        None \<Rightarrow> w
      | Some m \<Rightarrow>
          (let w1 = w\<lparr>lastFocusedElement := activeElement w\<rparr>;
               w2 = w1\<lparr>modalImage :=
                         map_option (\<lambda>i. i\<lparr>image_src := imagen plato, image_alt := nombre plato\<rparr>)
                           (modalImage w1),
                       modalTitle := map_option (\<lambda>t. nombre plato) (modalTitle w1),
                       modalDescription := map_option (\<lambda>t. descripcion plato) (modalDescription w1),
                       modalPrice := map_option (\<lambda>t. ''S/ '' @ to_string (precio plato)) (modalPrice w1)\<rparr>;
               w3 = w2\<lparr>modal := Some (m\<lparr>modal_display := ''flex'', modal_aria_hidden := Some ''false''\<rparr>)\<rparr>;
               w4 = requestAnimationFrame FadeIn w3;
               w5 = w4\<lparr>body_overflow := ''hidden''\<rparr>;
               w6 = setupFocusTrap w5;
               w7 = setTimeout FocusCloseBtn 100 w6
           in w7\<lparr>isOpen := True\<rparr>))"




section \<open>A reference JSON codec\<close>

text \<open>
  One runtime to instantiate the parameter with: a printer that writes the compact text
  \<^verbatim>\<open>JSON.stringify\<close> writes, and a recursive-descent parser for JSON texts whose numbers
  are integers. The parser counts its recursion depth down from a bound taken from the
  length of the text.
\<close>

definition dquote :: char where
  "dquote = CHR 0x22"

definition backslash :: char where
  "backslash = CHR 0x5C"

definition hex_digit :: "nat \<Rightarrow> char" where
  "hex_digit d = (if d < 10 then char_of (48 + d) else char_of (87 + d))"

definition escape_char :: "char \<Rightarrow> string" where
  "escape_char c =
     (if c = dquote then [backslash, dquote]
      else if c = backslash then [backslash, backslash]
      else if c = CHR 0x08 then [backslash, CHR ''b'']
      else if c = CHR 0x09 then [backslash, CHR ''t'']
      else if c = CHR 0x0A then [backslash, CHR ''n'']
      else if c = CHR 0x0C then [backslash, CHR ''f'']
      else if c = CHR 0x0D then [backslash, CHR ''r'']
      else if (of_char c :: nat) < 32
      then [backslash, CHR ''u'', CHR ''0'', CHR ''0'',
            hex_digit ((of_char c :: nat) div 16), hex_digit ((of_char c :: nat) mod 16)]
      else [c])"

definition quote :: "string \<Rightarrow> string" where
  "quote s = dquote # concat (map escape_char s) @ [dquote]"

fun join_commas :: "string list \<Rightarrow> string" where
  "join_commas [] = []"
| "join_commas [x] = x"
| "join_commas (x # y # ys) = x @ CHR '','' # join_commas (y # ys)"

fun json_text :: "json \<Rightarrow> string" where
  "json_text JNull = ''null''"
| "json_text (JBool b) = (if b then ''true'' else ''false'')"
| "json_text (JNum n) = show_int n"
| "json_text (JStr s) = quote s"
| "json_text (JArr xs) = CHR ''['' # join_commas (map json_text xs) @ '']''"
| "json_text (JObj kvs) =
     CHR ''{'' # join_commas (map (\<lambda>kv. quote (fst kv) @ CHR '':'' # json_text (snd kv)) kvs) @ ''}''"

definition is_ws :: "char \<Rightarrow> bool" where
  "is_ws c = (c = CHR '' '' \<or> c = CHR 0x09 \<or> c = CHR 0x0A \<or> c = CHR 0x0D)"

definition skip_ws :: "string \<Rightarrow> string" where
  "skip_ws s = dropWhile is_ws s"

definition hex_value :: "char \<Rightarrow> nat option" where
  "hex_value c =
     (let n = (of_char c :: nat) in
      if 48 \<le> n \<and> n \<le> 57 then Some (n - 48)
      else if 97 \<le> n \<and> n \<le> 102 then Some (n - 87)
      else if 65 \<le> n \<and> n \<le> 70 then Some (n - 55)
      else None)"

text \<open>A number token: an optional minus and digits without a leading zero; a fraction or
  an exponent is not an integer and is refused.\<close>

definition parse_number :: "string \<Rightarrow> (json \<times> string) option" where
  "parse_number s =
     (let neg = (s \<noteq> [] \<and> hd s = CHR ''-'');
          s1 = (if neg then tl s else s);
          ds = takeWhile is_digit s1;
          r = dropWhile is_digit s1
      in if ds = [] \<or> (length ds > 1 \<and> hd ds = CHR ''0'') then None
         else if r \<noteq> [] \<and> (hd r = CHR ''.'' \<or> hd r = CHR ''e'' \<or> hd r = CHR ''E'') then None
         else Some (JNum (if neg then - int_of_digits ds else int_of_digits ds), r))"

text \<open>The characters of a string token after its opening quote, up to the closing one.\<close>

fun parse_chars :: "string \<Rightarrow> string \<Rightarrow> (string \<times> string) option" where
  "parse_chars [] acc = None"
| "parse_chars (c # cs) acc =
     (if c = dquote then Some (rev acc, cs)
      else if c = backslash then
        (case cs of
           [] \<Rightarrow> None
         | e # r \<Rightarrow>
             if e = dquote \<or> e = backslash \<or> e = CHR ''/'' then parse_chars r (e # acc)
             else if e = CHR ''b'' then parse_chars r (CHR 0x08 # acc)
             else if e = CHR ''t'' then parse_chars r (CHR 0x09 # acc)
             else if e = CHR ''n'' then parse_chars r (CHR 0x0A # acc)
             else if e = CHR ''f'' then parse_chars r (CHR 0x0C # acc)
             else if e = CHR ''r'' then parse_chars r (CHR 0x0D # acc)
             else if e = CHR ''u'' then
               (case r of
                  a # b # x # y # r' \<Rightarrow>
                    (case (hex_value a, hex_value b, hex_value x, hex_value y) of
                       (Some 0, Some 0, Some h, Some l) \<Rightarrow> parse_chars r' (char_of (16 * h + l) # acc)
                     | _ \<Rightarrow> None)
                | _ \<Rightarrow> None)
             else None)
      else if (of_char c :: nat) < 32 then None
      else parse_chars cs (c # acc))"

definition parse_literal :: "string \<Rightarrow> json \<Rightarrow> string \<Rightarrow> (json \<times> string) option" where
  "parse_literal word v s =
     (if take (length word) s = word then Some (v, drop (length word) s) else None)"

fun parse_value :: "nat \<Rightarrow> string \<Rightarrow> (json \<times> string) option"
  and parse_elements :: "nat \<Rightarrow> string \<Rightarrow> (json list \<times> string) option"
  and parse_members :: "nat \<Rightarrow> string \<Rightarrow> ((string \<times> json) list \<times> string) option" where
  "parse_value 0 s = None"
| "parse_value (Suc n) s =
     (case skip_ws s of
        [] \<Rightarrow> None
      | c # cs \<Rightarrow>
          if c = CHR ''n'' then parse_literal ''null'' JNull (c # cs)
          else if c = CHR ''t'' then parse_literal ''true'' (JBool True) (c # cs)
          else if c = CHR ''f'' then parse_literal ''false'' (JBool False) (c # cs)
          else if c = dquote then
            (case parse_chars cs [] of None \<Rightarrow> None | Some (str, r) \<Rightarrow> Some (JStr str, r))
          else if c = CHR ''['' then
            (case skip_ws cs of
               [] \<Rightarrow> None
             | x # r \<Rightarrow>
                 if x = CHR '']'' then Some (JArr [], r)
                 else (case parse_elements n cs of None \<Rightarrow> None | Some (vs, r') \<Rightarrow> Some (JArr vs, r')))
          else if c = CHR ''{'' then
            (case skip_ws cs of
               [] \<Rightarrow> None
             | x # r \<Rightarrow>
                 if x = CHR ''}'' then Some (JObj [], r)
                 else (case parse_members n cs of None \<Rightarrow> None | Some (kvs, r') \<Rightarrow> Some (JObj kvs, r')))
          else parse_number (c # cs))"
| "parse_elements 0 s = None"
| "parse_elements (Suc n) s =
     (case parse_value n s of
        None \<Rightarrow> None
      | Some (v, r) \<Rightarrow>
          (case skip_ws r of
             [] \<Rightarrow> None
           | x # r' \<Rightarrow>
               if x = CHR '']'' then Some ([v], r')
               else if x = CHR '','' then
                 (case parse_elements n r' of None \<Rightarrow> None | Some (vs, r'') \<Rightarrow> Some (v # vs, r''))
               else None))"
| "parse_members 0 s = None"
| "parse_members (Suc n) s =
     (case skip_ws s of
        [] \<Rightarrow> None
      | q # cs \<Rightarrow>
          if q \<noteq> dquote then None
          else (case parse_chars cs [] of
                  None \<Rightarrow> None
                | Some (k, r) \<Rightarrow>
                    (case skip_ws r of
                       [] \<Rightarrow> None
                     | colon # r1 \<Rightarrow>
                         if colon \<noteq> CHR '':'' then None
                         else (case parse_value n r1 of
                                 None \<Rightarrow> None
                               | Some (v, r2) \<Rightarrow>
                                   (case skip_ws r2 of
                                      [] \<Rightarrow> None
                                    | x # r3 \<Rightarrow>
                                        if x = CHR ''}'' then Some ([(k, v)], r3)
                                        else if x = CHR '','' then
                                          (case parse_members n r3 of
                                             None \<Rightarrow> None
                                           | Some (kvs, r4) \<Rightarrow> Some ((k, v) # kvs, r4))
                                        else None)))))"

definition json_parse :: "string \<Rightarrow> json option" where
  "json_parse s =
     (case parse_value (2 * length s + 2) s of
        None \<Rightarrow> None
      | Some (v, r) \<Rightarrow> if skip_ws r = [] then Some v else None)"

text \<open>Upper case on the letters a to z.\<close>

definition upper_char :: "char \<Rightarrow> char" where
  "upper_char c =
     (if 97 \<le> (of_char c :: nat) \<and> (of_char c :: nat) \<le> 122
      then char_of ((of_char c :: nat) - 32) else c)"

definition reference_runtime :: runtime where
  "reference_runtime =
     \<lparr>JSON_parse = json_parse, JSON_stringify = json_text, String_toUpperCase = map upper_char\<rparr>"

text \<open>
  For reasoning about the parser: the recursion depth a value needs, what may follow a
  number token, and what a printed value may start with.
\<close>

fun json_depth :: "json \<Rightarrow> nat" where
  "json_depth (JArr xs) = Suc (sum_list (map (\<lambda>x. Suc (json_depth x)) xs))"
| "json_depth (JObj kvs) = Suc (sum_list (map (\<lambda>kv. Suc (json_depth (snd kv))) kvs))"
| "json_depth v = 1"

definition ends_number :: "string \<Rightarrow> bool" where
  "ends_number rest =
     (rest = [] \<or> (\<not> is_digit (hd rest) \<and> hd rest \<noteq> CHR ''.'' \<and> hd rest \<noteq> CHR ''e''
                    \<and> hd rest \<noteq> CHR ''E''))"

definition value_start :: "char \<Rightarrow> bool" where
  "value_start c = (\<not> is_ws c \<and> c \<noteq> CHR '']'' \<and> c \<noteq> CHR ''}'')"

section \<open>A sample menu and a sample page\<close>

text \<open>
  A menu of three categories, one of them empty, as the catalog the renderers get and as
  the JSON document the server sends and the cache stores; two more dishes with prices
  that are not whole numbers; and a page that has every element the scripts look for, in
  the state the scripts start from.
\<close>

definition causa :: dish where
  "causa = \<lparr>nombre = ''Causa'', descripcion = ''Papa amarilla con pollo'',
            precio = PriceNumber (Finite False 12 2), imagen = ''causa.jpg''\<rparr>"

definition chicha :: dish where
  "chicha = \<lparr>nombre = ''Chicha morada'', descripcion = ''Bebida de maiz morado'',
             precio = PriceString ''7.5'', imagen = ''chicha.jpg''\<rparr>"

definition lomo :: dish where
  "lomo = \<lparr>nombre = ''Lomo saltado'', descripcion = ''Lomo de res salteado'',
           precio = PriceNumber (Finite False 1255 2), imagen = ''lomo.jpg''\<rparr>"

definition anticucho :: dish where
  "anticucho = \<lparr>nombre = ''Anticucho'', descripcion = ''Brocheta de corazon'',
                precio = PriceNumber (Finite False 125 2), imagen = ''anticucho.jpg''\<rparr>"

definition sample_catalog :: catalog where
  "sample_catalog = [(''entradas'', [causa]), (''bebidas'', [chicha]), (''postres'', [])]"

definition sample_menu :: json where
  "sample_menu =
     JObj [(''entradas'',
            JArr [JObj [(''nombre'', JStr ''Causa''),
                        (''descripcion'', JStr ''Papa amarilla con pollo''),
                        (''precio'', JNum 12),
                        (''imagen'', JStr ''causa.jpg'')]]),
           (''bebidas'',
            JArr [JObj [(''nombre'', JStr ''Chicha morada''),
                        (''descripcion'', JStr ''Bebida de maiz morado''),
                        (''precio'', JStr ''7.5''),
                        (''imagen'', JStr ''chicha.jpg'')]]),
           (''postres'', JArr [])]"

definition sample_element :: element where
  "sample_element = \<lparr>classes = [], style_display = [], rect_top = 0, children = []\<rparr>"

definition sample_storage :: localStorage where
  "sample_storage = \<lparr>items = Map.empty, available = True, quota = 5000000\<rparr>"

definition sample_controls :: "control list" where
  "sample_controls =
     [createFilterButton ''all'' ''Todos'' True,
      createFilterButton ''entradas'' ''Entradas'' False,
      createFilterButton ''bebidas'' ''Bebidas'' False,
      createFilterButton ''postres'' ''Postres'' False]"

definition sample_page :: "'d page" where
  "sample_page =
     \<lparr>data = None, activeCategory = Some ''all'', activeView = Detailed,
      isLoading = False, error = None, loaderPresent = True,
      menuGrid = Some sample_element, menuSimple = Some sample_element,
      loadingState = Some sample_element,
      errorState = Some (sample_element\<lparr>classes := [''hidden'']\<rparr>),
      storage = sample_storage, controls = sample_controls,
      announcer = None, pageYOffset = 0, scrolledTo = None\<rparr>"

definition sample_modal_world :: modal_world where
  "sample_modal_world =
     \<lparr>modal = Some \<lparr>modal_display = ''none'', modal_aria_hidden = Some ''true'',
                     modal_opacity = ''0'',
                     modal_descendants =
                       [\<lparr>desc_id = 1, desc_tag = ''button'', desc_disabled = False,
                         desc_href = False, desc_tabindex = None\<rparr>]\<rparr>,
      closeBtn = Some 1,
      modalImage = Some \<lparr>image_src = [], image_alt = []\<rparr>,
      modalTitle = Some [], modalDescription = Some [], modalPrice = Some [],
      activeElement = Some 7,
      focusable = (\<lambda>e. e = 1 \<or> e = 7),
      body_overflow = [],
      isOpen = False, lastFocusedElement = None, focusableElements = [],
      clock = 0, timers = [], frame_interval = 16\<rparr>"

section \<open>What a rendered page shows\<close>

text \<open>
  Reading a page back: the children of the two containers, and the dishes whose cards are
  on the grid, in document order.
\<close>

definition grid_children :: "'d page \<Rightarrow> node list" where
  "grid_children p = (case menuGrid p of None \<Rightarrow> [] | Some g \<Rightarrow> children g)"

definition simple_children :: "'d page \<Rightarrow> node list" where
  "simple_children p = (case menuSimple p of None \<Rightarrow> [] | Some g \<Rightarrow> children g)"

fun shown_dishes :: "node list \<Rightarrow> dish list" where
  "shown_dishes [] = []"
| "shown_dishes (Card c delay # ns) = card_opens c # shown_dishes ns"
| "shown_dishes (n # ns) = shown_dishes ns"

text \<open>
  What a container holds when it shows a list of dishes and nothing else. On the grid:
  one card per dish, in the order of the list, numbered from \<open>i\<close>, each becoming visible
  after its number times the animation delay; or the empty-state paragraph alone when
  there is no dish. In the simple view: for each category that has dishes its heading and
  the list of its items; or the empty-state paragraph alone when no category has a dish.
\<close>

fun cards_from :: "nat \<Rightarrow> dish list \<Rightarrow> node list" where
  "cards_from i [] = []"
| "cards_from i (plato # rest) =
     Card (createMenuCard plato i) (i * animationDelay) # cards_from (Suc i) rest"

definition detailed_nodes :: "dish list \<Rightarrow> node list" where
  "detailed_nodes platos = (if platos = [] then [Paragraph no_items] else cards_from 0 platos)"

definition simple_section :: "runtime \<Rightarrow> string \<times> dish list \<Rightarrow> node list" where
  "simple_section rt kv =
     (if snd kv = [] then []
      else [Heading (capitalizeFirst rt (fst kv)), ItemList (map simple_item (snd kv))])"

definition simple_nodes :: "runtime \<Rightarrow> catalog \<Rightarrow> node list" where
  "simple_nodes rt es =
     (if concat (map snd es) = [] then [Paragraph no_items]
      else concat (map (simple_section rt) es))"

text \<open>
  The specification's price format, in its words: a text shown with exactly two fraction
  digits ends in a decimal point followed by two digits, after at least one digit.
\<close>

definition spec_two_fraction_digits :: "string \<Rightarrow> bool" where
  "spec_two_fraction_digits s =
     (case rev s of
        a # b # point # c # rest \<Rightarrow> is_digit a \<and> is_digit b \<and> point = CHR ''.'' \<and> is_digit c
      | _ \<Rightarrow> False)"

section \<open>The reference codec reads back what it prints\<close>

lemma hex_value_hex_digit: "d < 16 \<Longrightarrow> hex_value (hex_digit d) = Some d"
proof (cases "d < 10")
  case True
  then have "(48 + d) mod 256 = 48 + d"
    by simp
  with True show ?thesis
    by (simp add: hex_value_def hex_digit_def Let_def)
next
  case False
  assume "d < 16"
  with False have "(87 + d) mod 256 = 87 + d"
    by simp
  with False \<open>d < 16\<close> show ?thesis
    by (simp add: hex_value_def hex_digit_def Let_def)
qed

lemma hex_value_zero: "hex_value (CHR ''0'') = Some 0"
  by (simp add: hex_value_def)

lemma parse_chars_unicode:
  assumes "(of_char c :: nat) < 32"
  shows "parse_chars (backslash # CHR ''u'' # CHR ''0'' # CHR ''0''
            # hex_digit ((of_char c :: nat) div 16) # hex_digit ((of_char c :: nat) mod 16) # r) acc
         = parse_chars r (c # acc)"
proof -
  let ?n = "of_char c :: nat"
  have h: "hex_value (hex_digit (?n div 16)) = Some (?n div 16)"
    using assms by (intro hex_value_hex_digit) simp
  have l: "hex_value (hex_digit (?n mod 16)) = Some (?n mod 16)"
    by (intro hex_value_hex_digit) simp
  have "char_of (16 * (?n div 16) + ?n mod 16) = c"
    by simp
  with h l show ?thesis
    by (simp add: hex_value_zero backslash_def dquote_def)
qed

lemma escape_special:
  "parse_chars (escape_char (CHR 0x08) @ r) acc = parse_chars r (CHR 0x08 # acc)"
  "parse_chars (escape_char (CHR 0x09) @ r) acc = parse_chars r (CHR 0x09 # acc)"
  "parse_chars (escape_char (CHR 0x0A) @ r) acc = parse_chars r (CHR 0x0A # acc)"
  "parse_chars (escape_char (CHR 0x0C) @ r) acc = parse_chars r (CHR 0x0C # acc)"
  "parse_chars (escape_char (CHR 0x0D) @ r) acc = parse_chars r (CHR 0x0D # acc)"
  "parse_chars (escape_char dquote @ r) acc = parse_chars r (dquote # acc)"
  "parse_chars (escape_char backslash @ r) acc = parse_chars r (backslash # acc)"
  by (simp_all add: escape_char_def dquote_def backslash_def)

lemma escape_plain:
  assumes "\<not> (of_char c :: nat) < 32" and "c \<noteq> dquote" and "c \<noteq> backslash"
  shows "parse_chars (escape_char c @ r) acc = parse_chars r (c # acc)"
proof -
  have "c \<noteq> CHR 0x08" "c \<noteq> CHR 0x09" "c \<noteq> CHR 0x0A" "c \<noteq> CHR 0x0C" "c \<noteq> CHR 0x0D"
    using assms(1) by auto
  with assms have "escape_char c = [c]"
    by (simp add: escape_char_def)
  with assms show ?thesis
    by simp
qed

lemma escape_control:
  assumes "(of_char c :: nat) < 32"
    and "c \<noteq> CHR 0x08" "c \<noteq> CHR 0x09" "c \<noteq> CHR 0x0A" "c \<noteq> CHR 0x0C" "c \<noteq> CHR 0x0D"
  shows "parse_chars (escape_char c @ r) acc = parse_chars r (c # acc)"
proof -
  have "c \<noteq> dquote" "c \<noteq> backslash"
    using assms(1) by (auto simp add: dquote_def backslash_def)
  with assms have "escape_char c
      = [backslash, CHR ''u'', CHR ''0'', CHR ''0'',
         hex_digit ((of_char c :: nat) div 16), hex_digit ((of_char c :: nat) mod 16)]"
    by (simp add: escape_char_def)
  with parse_chars_unicode [OF assms(1), of r acc] show ?thesis
    by simp
qed

lemma parse_chars_escape:
  "parse_chars (escape_char c @ r) acc = parse_chars r (c # acc)"
  using escape_special [of r acc] escape_plain [of c r acc] escape_control [of c r acc]
  by blast

lemma parse_chars_quoted:
  "parse_chars (concat (map escape_char s) @ dquote # rest) acc = Some (rev acc @ s, rest)"
proof (induction s arbitrary: acc)
  case Nil
  show ?case by simp
next
  case (Cons c s)
  have "parse_chars (concat (map escape_char (c # s)) @ dquote # rest) acc
      = parse_chars (escape_char c @ (concat (map escape_char s) @ dquote # rest)) acc"
    by simp
  also have "\<dots> = parse_chars (concat (map escape_char s) @ dquote # rest) (c # acc)"
    by (rule parse_chars_escape)
  also have "\<dots> = Some (rev (c # acc) @ s, rest)"
    by (rule Cons.IH)
  finally show ?case by simp
qed

lemma digit_char_is_digit: "0 \<le> d \<Longrightarrow> d < 10 \<Longrightarrow> is_digit (digit_char d)"
proof -
  assume "0 \<le> d" "d < 10"
  then have "(48 + d) mod 256 = 48 + d"
    by simp
  with \<open>0 \<le> d\<close> \<open>d < 10\<close> show ?thesis
    by (simp add: is_digit_def digit_char_def)
qed

lemma digit_char_value: "0 \<le> d \<Longrightarrow> d < 10 \<Longrightarrow> (of_char (digit_char d) :: int) - 48 = d"
proof -
  assume "0 \<le> d" "d < 10"
  then have "(48 + d) mod 256 = 48 + d"
    by simp
  then show ?thesis
    by (simp add: digit_char_def)
qed

lemma show_digits_all_digits: "0 \<le> n \<Longrightarrow> list_all is_digit (show_digits n)"
proof (induction n rule: show_digits.induct)
  case (1 n)
  show ?case
  proof (cases "n < 10")
    case True
    with 1(2) show ?thesis
      by (subst show_digits.simps) (simp add: digit_char_is_digit)
  next
    case False
    then have "list_all is_digit (show_digits (n div 10))"
      using 1 by simp
    moreover have "is_digit (digit_char (n mod 10))"
      by (rule digit_char_is_digit) simp_all
    ultimately show ?thesis
      using False by (subst show_digits.simps) simp
  qed
qed

lemma show_digits_nonempty: "show_digits n \<noteq> []"
  by (subst show_digits.simps) simp

lemma int_of_digits_snoc:
  "int_of_digits (ds @ [c]) = 10 * int_of_digits ds + ((of_char c :: int) - 48)"
  by (simp add: int_of_digits_def)

lemma int_of_show_digits: "0 \<le> n \<Longrightarrow> int_of_digits (show_digits n) = n"
proof (induction n rule: show_digits.induct)
  case (1 n)
  show ?case
  proof (cases "n < 10")
    case True
    with 1(2) digit_char_value [of n] show ?thesis
      by (subst show_digits.simps) (simp add: int_of_digits_def)
  next
    case False
    then have "int_of_digits (show_digits (n div 10)) = n div 10"
      using 1 by simp
    moreover have "(of_char (digit_char (n mod 10)) :: int) - 48 = n mod 10"
      by (rule digit_char_value) simp_all
    ultimately show ?thesis
      using False by (subst show_digits.simps) (simp add: int_of_digits_snoc)
  qed
qed

lemma show_digits_single: "length (show_digits n) > 1 \<Longrightarrow> \<not> n < 10"
  by (subst (asm) show_digits.simps) (simp split: if_splits)

lemma zero_char: "0 \<le> d \<Longrightarrow> d < 10 \<Longrightarrow> digit_char d = CHR ''0'' \<Longrightarrow> d = 0"
  using digit_char_value [of d] by simp

lemma show_digits_leading: "0 < n \<Longrightarrow> hd (show_digits n) \<noteq> CHR ''0''"
proof (induction n rule: show_digits.induct)
  case (1 n)
  show ?case
  proof (cases "n < 10")
    case True
    with 1(2) zero_char [of n] show ?thesis
      by (subst show_digits.simps) auto
  next
    case False
    then have "hd (show_digits (n div 10)) \<noteq> CHR ''0''"
      using 1 by simp
    then show ?thesis
      using False show_digits_nonempty [of "n div 10"]
      by (subst show_digits.simps) simp
  qed
qed

lemma takeWhile_digits:
  assumes "list_all is_digit ds" and "ends_number rest"
  shows "takeWhile is_digit (ds @ rest) = ds \<and> dropWhile is_digit (ds @ rest) = rest"
proof -
  have "takeWhile is_digit rest = [] \<and> dropWhile is_digit rest = rest"
    using assms(2) by (cases rest) (auto simp add: ends_number_def)
  with assms(1) show ?thesis
    by (simp add: list_all_iff takeWhile_append2 dropWhile_append2)
qed

lemma parse_number_digits:
  assumes "0 \<le> n" and "ends_number rest"
  shows "takeWhile is_digit (show_digits n @ rest) = show_digits n"
    and "dropWhile is_digit (show_digits n @ rest) = rest"
    and "\<not> (length (show_digits n) > 1 \<and> hd (show_digits n) = CHR ''0'')"
    and "is_digit (hd (show_digits n))"
proof -
  from takeWhile_digits [OF show_digits_all_digits [OF assms(1)] assms(2)]
  show "takeWhile is_digit (show_digits n @ rest) = show_digits n"
    and "dropWhile is_digit (show_digits n @ rest) = rest"
    by simp_all
  show "\<not> (length (show_digits n) > 1 \<and> hd (show_digits n) = CHR ''0'')"
  proof
    assume a: "length (show_digits n) > 1 \<and> hd (show_digits n) = CHR ''0''"
    then have "\<not> n < 10"
      using show_digits_single by blast
    then have "0 < n"
      by simp
    with show_digits_leading a show False
      by blast
  qed
  show "is_digit (hd (show_digits n))"
    using show_digits_all_digits [OF assms(1)] show_digits_nonempty [of n]
    by (cases "show_digits n") simp_all
qed

lemma minus_not_digit: "\<not> is_digit (CHR ''-'')"
  by (simp add: is_digit_def)

lemma parse_number_show_int:
  assumes "ends_number rest"
  shows "parse_number (show_int i @ rest) = Some (JNum i, rest)"
proof (cases "i < 0")
  case True
  then have n: "0 \<le> - i"
    by simp
  note d = parse_number_digits [OF n assms]
  have r: "\<not> (rest \<noteq> [] \<and> (hd rest = CHR ''.'' \<or> hd rest = CHR ''e'' \<or> hd rest = CHR ''E''))"
    using assms by (auto simp add: ends_number_def)
  show ?thesis
    using True d r show_digits_nonempty [of "- i"] int_of_show_digits [OF n]
    by (simp add: parse_number_def show_int_def Let_def)
next
  case False
  then have n: "0 \<le> i"
    by simp
  note d = parse_number_digits [OF n assms]
  have r: "\<not> (rest \<noteq> [] \<and> (hd rest = CHR ''.'' \<or> hd rest = CHR ''e'' \<or> hd rest = CHR ''E''))"
    using assms by (auto simp add: ends_number_def)
  have h: "hd (show_digits i @ rest) \<noteq> CHR ''-''"
    using d(4) show_digits_nonempty [of i] minus_not_digit by auto
  show ?thesis
    using False d r h show_digits_nonempty [of i] int_of_show_digits [OF n]
    by (simp add: parse_number_def show_int_def Let_def)
qed

lemma join_commas_Cons: "ys \<noteq> [] \<Longrightarrow> join_commas (y # ys) = y @ CHR '','' # join_commas ys"
  by (cases ys) simp_all

lemma ends_number_separators:
  "ends_number []" "ends_number (CHR '','' # r)" "ends_number (CHR '']'' # r)"
  "ends_number (CHR ''}'' # r)"
  by (simp_all add: ends_number_def is_digit_def)

lemma skip_ws_separators:
  "skip_ws (CHR '','' # r) = CHR '','' # r" "skip_ws (CHR '']'' # r) = CHR '']'' # r"
  "skip_ws (CHR ''}'' # r) = CHR ''}'' # r" "skip_ws (CHR '':'' # r) = CHR '':'' # r"
  "skip_ws (dquote # r) = dquote # r" "skip_ws [] = []"
  by (simp_all add: skip_ws_def is_ws_def dquote_def)

lemma digit_start:
  assumes "is_digit c \<or> c = CHR ''-''"
  shows "\<not> is_ws c" "c \<noteq> CHR '']''" "c \<noteq> CHR ''}''" "c \<noteq> CHR ''n''" "c \<noteq> CHR ''t''"
    "c \<noteq> CHR ''f''" "c \<noteq> dquote" "c \<noteq> CHR ''[''" "c \<noteq> CHR ''{''"
  using assms by (auto simp add: is_digit_def is_ws_def dquote_def)

lemma show_int_start: "\<exists>c cs. show_int i = c # cs \<and> (is_digit c \<or> c = CHR ''-'')"
proof (cases "i < 0")
  case True
  then show ?thesis
    by (simp add: show_int_def)
next
  case False
  then have n: "0 \<le> i"
    by simp
  obtain c cs where s: "show_digits i = c # cs"
    using show_digits_nonempty [of i] by (cases "show_digits i") auto
  with show_digits_all_digits [OF n] have "is_digit c"
    by simp
  with s False show ?thesis
    by (simp add: show_int_def)
qed

lemma json_text_start: "\<exists>c cs. json_text v = c # cs \<and> value_start c"
proof (cases v)
  case (JNum i)
  from show_int_start [of i] obtain c cs where "show_int i = c # cs" "is_digit c \<or> c = CHR ''-''"
    by blast
  with digit_start [of c] JNum show ?thesis
    by (simp add: value_start_def)
qed (simp_all add: value_start_def is_ws_def quote_def dquote_def)

lemma skip_ws_start: "value_start c \<Longrightarrow> skip_ws (c # cs) = c # cs"
  by (simp add: skip_ws_def value_start_def)

lemma parse_elements_text:
  assumes "xs \<noteq> []"
    and "\<And>x n rest. x \<in> set xs \<Longrightarrow> json_depth x \<le> n \<Longrightarrow> ends_number rest
            \<Longrightarrow> parse_value n (json_text x @ rest) = Some (x, rest)"
    and "sum_list (map (\<lambda>x. Suc (json_depth x)) xs) \<le> n"
  shows "parse_elements n (join_commas (map json_text xs) @ CHR '']'' # rest) = Some (xs, rest)"
  using assms
proof (induction xs arbitrary: n rule: list_nonempty_induct)
  case (single x)
  then obtain m where n: "n = Suc m" and m: "json_depth x \<le> m"
    by (cases n) simp_all
  have "parse_value m (json_text x @ CHR '']'' # rest) = Some (x, CHR '']'' # rest)"
    using single(1) [of x m "CHR '']'' # rest"] m by (simp add: ends_number_separators)
  then show ?case
    by (simp add: n skip_ws_separators)
next
  case (cons x xs)
  then obtain m where n: "n = Suc m" and m: "json_depth x \<le> m"
      and ms: "sum_list (map (\<lambda>x. Suc (json_depth x)) xs) \<le> m"
    by (cases n) simp_all
  let ?tail = "join_commas (map json_text xs) @ CHR '']'' # rest"
  have joined: "join_commas (map json_text (x # xs)) @ CHR '']'' # rest
      = json_text x @ CHR '','' # ?tail"
    using cons(1) by (simp add: join_commas_Cons)
  have first: "parse_value m (json_text x @ CHR '','' # ?tail) = Some (x, CHR '','' # ?tail)"
    using cons(3) [of x m "CHR '','' # ?tail"] m by (simp add: ends_number_separators)
  have others: "parse_elements m ?tail = Some (xs, rest)"
    using cons(2) [of m] cons(3) ms by simp
  show ?case
    unfolding joined n using first others by (simp add: skip_ws_separators)
qed

lemma parse_members_text:
  assumes "kvs \<noteq> []"
    and "\<And>k v n rest. (k, v) \<in> set kvs \<Longrightarrow> json_depth v \<le> n \<Longrightarrow> ends_number rest
            \<Longrightarrow> parse_value n (json_text v @ rest) = Some (v, rest)"
    and "sum_list (map (\<lambda>kv. Suc (json_depth (snd kv))) kvs) \<le> n"
  shows "parse_members n
           (join_commas (map (\<lambda>kv. quote (fst kv) @ CHR '':'' # json_text (snd kv)) kvs)
              @ CHR ''}'' # rest)
         = Some (kvs, rest)"
  using assms
proof (induction kvs arbitrary: n rule: list_nonempty_induct)
  case (single kv)
  obtain k v where kv: "kv = (k, v)"
    by (cases kv)
  from single kv obtain m where n: "n = Suc m" and m: "json_depth v \<le> m"
    by (cases n) simp_all
  have key: "parse_chars (concat (map escape_char k) @ dquote # CHR '':'' # json_text v @ CHR ''}'' # rest) []
      = Some (k, CHR '':'' # json_text v @ CHR ''}'' # rest)"
    using parse_chars_quoted [of k "CHR '':'' # json_text v @ CHR ''}'' # rest" "[]"] by simp
  have val: "parse_value m (json_text v @ CHR ''}'' # rest) = Some (v, CHR ''}'' # rest)"
    using single(1) [of k v m "CHR ''}'' # rest"] kv m by (simp add: ends_number_separators)
  show ?case
    using key val
    by (simp add: kv n quote_def skip_ws_separators)
next
  case (cons kv kvs)
  obtain k v where kv: "kv = (k, v)"
    by (cases kv)
  from cons kv obtain m where n: "n = Suc m" and m: "json_depth v \<le> m"
      and ms: "sum_list (map (\<lambda>kv. Suc (json_depth (snd kv))) kvs) \<le> m"
    by (cases n) simp_all
  let ?tail = "join_commas (map (\<lambda>kv. quote (fst kv) @ CHR '':'' # json_text (snd kv)) kvs)
      @ CHR ''}'' # rest"
  have joined: "join_commas (map (\<lambda>kv. quote (fst kv) @ CHR '':'' # json_text (snd kv)) (kv # kvs))
        @ CHR ''}'' # rest
      = dquote # concat (map escape_char k) @ dquote # CHR '':'' # json_text v @ CHR '','' # ?tail"
    using cons(1) by (simp add: join_commas_Cons kv quote_def)
  have key: "parse_chars (concat (map escape_char k) @ dquote # CHR '':'' # json_text v @ CHR '','' # ?tail) []
      = Some (k, CHR '':'' # json_text v @ CHR '','' # ?tail)"
    using parse_chars_quoted [of k "CHR '':'' # json_text v @ CHR '','' # ?tail" "[]"] by simp
  have val: "parse_value m (json_text v @ CHR '','' # ?tail) = Some (v, CHR '','' # ?tail)"
    using cons(3) [of k v m "CHR '','' # ?tail"] kv m by (simp add: ends_number_separators)
  have others: "parse_members m ?tail = Some (kvs, rest)"
  proof (rule cons(2))
    fix k' v' n' rest'
    assume "(k', v') \<in> set kvs" "json_depth v' \<le> n'" "ends_number rest'"
    then show "parse_value n' (json_text v' @ rest') = Some (v', rest')"
      using cons(3) [of k' v' n' rest'] by simp
  next
    show "sum_list (map (\<lambda>kv. Suc (json_depth (snd kv))) kvs) \<le> m"
      by (rule ms)
  qed
  show ?case
    unfolding joined n using key val others by (simp add: skip_ws_separators kv)
qed

lemma join_commas_start: "\<exists>r. join_commas ((c # cs) # ss) = c # r"
  by (cases ss) simp_all

lemma parse_value_text:
  "json_depth v \<le> n \<Longrightarrow> ends_number rest \<Longrightarrow> parse_value n (json_text v @ rest) = Some (v, rest)"
proof (induction v arbitrary: n rest)
  case JNull
  then obtain m where "n = Suc m"
    by (cases n) simp_all
  then show ?case
    by (simp add: skip_ws_def is_ws_def parse_literal_def)
next
  case (JBool b)
  then obtain m where "n = Suc m"
    by (cases n) simp_all
  then show ?case
    by (simp add: skip_ws_def is_ws_def parse_literal_def)
next
  case (JNum i)
  then obtain m where n: "n = Suc m"
    by (cases n) simp_all
  from show_int_start [of i] obtain c cs where s: "show_int i = c # cs"
      and c: "is_digit c \<or> c = CHR ''-''"
    by blast
  have "parse_number (c # cs @ rest) = Some (JNum i, rest)"
    using parse_number_show_int [OF JNum(2), of i] s by simp
  with digit_start [OF c] show ?case
    by (simp add: n s skip_ws_def)
next
  case (JStr s)
  then obtain m where n: "n = Suc m"
    by (cases n) simp_all
  have "parse_chars (concat (map escape_char s) @ dquote # rest) [] = Some (s, rest)"
    using parse_chars_quoted [of s rest "[]"] by simp
  then show ?case
    by (simp add: n quote_def skip_ws_separators) (simp add: dquote_def)
next
  case (JArr xs)
  then obtain m where n: "n = Suc m" and m: "sum_list (map (\<lambda>x. Suc (json_depth x)) xs) \<le> m"
    by (cases n) simp_all
  show ?case
  proof (cases "xs = []")
    case True
    then show ?thesis
      by (simp add: n skip_ws_def is_ws_def dquote_def)
  next
    case False
    from False obtain x xs' where xs: "xs = x # xs'"
      by (cases xs) auto
    from json_text_start [of x] obtain c r where x: "json_text x = c # r" and vc: "value_start c"
      by blast
    from join_commas_start [of c r "map json_text xs'"] xs x vc obtain cs where
      start: "join_commas (map json_text xs) = c # cs" "value_start c"
      by auto
    have elems: "parse_elements m (join_commas (map json_text xs) @ CHR '']'' # rest) = Some (xs, rest)"
      using False JArr(1) m by (intro parse_elements_text) simp_all
    have open_bracket: "skip_ws (CHR ''['' # join_commas (map json_text xs) @ CHR '']'' # rest)
        = CHR ''['' # join_commas (map json_text xs) @ CHR '']'' # rest"
      by (simp add: skip_ws_def is_ws_def)
    have inner: "skip_ws (join_commas (map json_text xs) @ CHR '']'' # rest) = c # cs @ CHR '']'' # rest"
      using start by (simp add: skip_ws_start)
    have c: "c \<noteq> CHR '']''"
      using start(2) by (simp add: value_start_def)
    show ?thesis
      using elems c
      by (simp add: n open_bracket inner dquote_def)
  qed
next
  case (JObj kvs)
  then obtain m where n: "n = Suc m"
      and m: "sum_list (map (\<lambda>kv. Suc (json_depth (snd kv))) kvs) \<le> m"
    by (cases n) simp_all
  let ?body = "join_commas (map (\<lambda>kv. quote (fst kv) @ CHR '':'' # json_text (snd kv)) kvs)"
  show ?case
  proof (cases "kvs = []")
    case True
    then show ?thesis
      by (simp add: n skip_ws_def is_ws_def dquote_def)
  next
    case False
    then obtain kv kvs' where kvs: "kvs = kv # kvs'"
      by (cases kvs) auto
    from join_commas_start [of dquote
        "concat (map escape_char (fst kv)) @ dquote # CHR '':'' # json_text (snd kv)"
        "map (\<lambda>kv. quote (fst kv) @ CHR '':'' # json_text (snd kv)) kvs'"] kvs
    obtain cs where start: "?body = dquote # cs"
      by (auto simp add: quote_def)
    have members: "parse_members m (?body @ CHR ''}'' # rest) = Some (kvs, rest)"
    proof (rule parse_members_text [OF False])
      fix k v n' rest'
      assume "(k, v) \<in> set kvs" "json_depth v \<le> n'" "ends_number rest'"
      then show "parse_value n' (json_text v @ rest') = Some (v, rest')"
        using JObj(1) [of "(k, v)" v n' rest'] by simp
    next
      show "sum_list (map (\<lambda>kv. Suc (json_depth (snd kv))) kvs) \<le> m"
        by (rule m)
    qed
    have open_brace: "skip_ws (CHR ''{'' # ?body @ CHR ''}'' # rest) = CHR ''{'' # ?body @ CHR ''}'' # rest"
      by (simp add: skip_ws_def is_ws_def)
    have inner: "skip_ws (?body @ CHR ''}'' # rest) = dquote # cs @ CHR ''}'' # rest"
      using start by (simp add: skip_ws_separators)
    show ?thesis
      using members
      by (simp add: n open_brace inner) (simp add: dquote_def)
  qed
qed

lemma length_join_commas: "sum_list (map length ss) \<le> length (join_commas ss)"
  by (induction ss rule: join_commas.induct) simp_all

lemma sum_list_twice_length:
  "sum_list (map (\<lambda>x. 2 * length (f x)) xs) = 2 * sum_list (map length (map f xs))"
  by (induction xs) simp_all

lemma json_depth_bound: "Suc (json_depth v) \<le> 2 * length (json_text v)"
proof (induction v)
  case JNull
  show ?case by simp
next
  case (JBool b)
  show ?case by simp
next
  case (JNum i)
  from show_int_start [of i] obtain c cs where "show_int i = c # cs"
    by blast
  then show ?case by simp
next
  case (JStr s)
  show ?case by (simp add: quote_def)
next
  case (JArr xs)
  have "sum_list (map (\<lambda>x. Suc (json_depth x)) xs) \<le> sum_list (map (\<lambda>x. 2 * length (json_text x)) xs)"
    by (rule sum_list_mono) (rule JArr)
  also have "\<dots> = 2 * sum_list (map length (map json_text xs))"
    by (rule sum_list_twice_length)
  also have "\<dots> \<le> 2 * length (join_commas (map json_text xs))"
    using length_join_commas [of "map json_text xs"] by simp
  finally show ?case
    by simp
next
  case (JObj kvs)
  let ?member = "\<lambda>kv. quote (fst kv) @ CHR '':'' # json_text (snd kv)"
  have "sum_list (map (\<lambda>kv. Suc (json_depth (snd kv))) kvs)
      \<le> sum_list (map (\<lambda>kv. 2 * length (?member kv)) kvs)"
  proof (rule sum_list_mono)
    fix kv
    assume member: "kv \<in> set kvs"
    obtain k v where kv: "kv = (k, v)"
      by (cases kv)
    with member have "Suc (json_depth (snd kv)) \<le> 2 * length (json_text (snd kv))"
      using JObj [of "(k, v)" v] by simp
    then show "Suc (json_depth (snd kv)) \<le> 2 * length (?member kv)"
      by simp
  qed
  also have "\<dots> = 2 * sum_list (map length (map ?member kvs))"
    by (rule sum_list_twice_length)
  also have "\<dots> \<le> 2 * length (join_commas (map ?member kvs))"
    using length_join_commas [of "map ?member kvs"] by simp
  finally show ?case
    by simp
qed

lemma json_parse_json_text: "json_parse (json_text v) = Some v"
proof -
  have "json_depth v \<le> 2 * length (json_text v) + 2"
    using json_depth_bound [of v] by simp
  then have "parse_value (2 * length (json_text v) + 2) (json_text v @ []) = Some (v, [])"
    by (rule parse_value_text) (rule ends_number_separators)
  then show ?thesis
    by (simp add: json_parse_def skip_ws_separators)
qed

lemma json_text_nonempty: "json_text v \<noteq> []"
  using json_text_start [of v] by auto

text \<open>
  So the reference runtime has the two properties the cache relies on, for every value:
  parsing the text of a value gives the value back, and that text is not empty.
\<close>

lemma reference_runtime_reads_back:
  "JSON_parse reference_runtime (JSON_stringify reference_runtime v) = Some v
   \<and> JSON_stringify reference_runtime v \<noteq> []"
  by (simp add: reference_runtime_def json_parse_json_text json_text_nonempty)

section \<open>Properties of the cache\<close>

text \<open>
  C6. An entry whose timestamp lies more than 24 hours (86400000 ms) before the time of the
  call makes \<^verbatim>\<open>getFromCache\<close> return \<^verbatim>\<open>null\<close> and removes the key from storage; a missing
  key and a text that \<^verbatim>\<open>JSON.parse\<close> refuses also give \<^verbatim>\<open>null\<close>, with storage unchanged.
\<close>

theorem getFromCache_stale_missing_unparsable:
  "(available ls \<and> items ls cacheKey = Some cached \<and> cached \<noteq> [] \<and>
      JSON_parse rt cached = Some (JObj kvs) \<and> map_of kvs ''timestamp'' = Some (JNum ts) \<and>
      now - ts > 24 * 60 * 60 * 1000
      \<longrightarrow> getFromCache rt now ls = (null_js, ls\<lparr>items := (items ls)(cacheKey := None)\<rparr>))
   \<and> (available ls2 \<and> items ls2 cacheKey = None
      \<longrightarrow> getFromCache rt now ls2 = (null_js, ls2))
   \<and> (available ls3 \<and> items ls3 cacheKey = Some garbled \<and> JSON_parse rt garbled = None
      \<longrightarrow> getFromCache rt now ls3 = (null_js, ls3))"
  by (simp add: getFromCache_def getItem_def removeItem_def js_minus_def js_greater_def
      cacheExpiry_def)

theorem getFromCache_stale_missing_unparsable_witness:
  "getFromCache reference_runtime 1700086400001
       (sample_storage\<lparr>items := [cacheKey \<mapsto> json_text (cacheData_of (JObj []) 1700000000000)]\<rparr>)
     = (null_js, sample_storage\<lparr>items := [cacheKey \<mapsto> json_text (cacheData_of (JObj []) 1700000000000)](cacheKey := None)\<rparr>)
   \<and> getFromCache reference_runtime 1700086400001 sample_storage = (null_js, sample_storage)
   \<and> getFromCache reference_runtime 1700086400001
        (sample_storage\<lparr>items := [cacheKey \<mapsto> ''{not json'']\<rparr>)
     = (null_js, sample_storage\<lparr>items := [cacheKey \<mapsto> ''{not json'']\<rparr>)"
proof -
  let ?txt = "json_text (cacheData_of (JObj []) 1700000000000)"
  let ?ls = "sample_storage\<lparr>items := [cacheKey \<mapsto> ?txt]\<rparr>"
  let ?ls3 = "sample_storage\<lparr>items := [cacheKey \<mapsto> ''{not json'']\<rparr>"
  have parsed: "JSON_parse reference_runtime ?txt
      = Some (JObj [(''data'', JObj []), (''timestamp'', JNum 1700000000000)])"
    by code_simp
  have nonempty: "?txt \<noteq> []"
    by code_simp
  have refused: "JSON_parse reference_runtime ''{not json'' = None"
    by code_simp
  have stale: "available ?ls \<and> items ?ls cacheKey = Some ?txt \<and> ?txt \<noteq> [] \<and>
      JSON_parse reference_runtime ?txt
        = Some (JObj [(''data'', JObj []), (''timestamp'', JNum 1700000000000)]) \<and>
      map_of [(''data'', JObj []), (''timestamp'', JNum 1700000000000)] ''timestamp''
        = Some (JNum 1700000000000) \<and>
      (1700086400001::int) - 1700000000000 > 24 * 60 * 60 * 1000"
    using parsed nonempty by (simp add: sample_storage_def)
  have missing: "available sample_storage \<and> items sample_storage cacheKey = None"
    by (simp add: sample_storage_def)
  have garbled: "available ?ls3 \<and> items ?ls3 cacheKey = Some ''{not json'' \<and>
      JSON_parse reference_runtime ''{not json'' = None"
    using refused by (simp add: sample_storage_def)
  from getFromCache_stale_missing_unparsable
    [of ?ls ?txt reference_runtime "[(''data'', JObj []), (''timestamp'', JNum 1700000000000)]"
        1700000000000 1700086400001 sample_storage ?ls3 "''{not json''"]
    stale missing garbled
  show ?thesis by simp
qed

lemma sample_entry_length:
  "length (JSON_stringify reference_runtime
       (cacheData_of (sample_menu) 1700000000000)) \<le> 1000"
  by code_simp

text \<open>
  C7. With storage working and within its quota, and a runtime whose \<^verbatim>\<open>JSON.parse\<close> reads back
  the text \<^verbatim>\<open>JSON.stringify\<close> wrote for the entry (a text that is not empty), a load made no
  more than 24 hours after the save returns the saved data and leaves the entry in place.
  This holds for every JSON value saved, so for every catalog; the reference runtime meets
  the two conditions on the runtime for every value.
\<close>

theorem cache_round_trip:
  assumes "available ls"
    and "length (JSON_stringify rt (cacheData_of d t0)) \<le> quota ls"
    and "JSON_stringify rt (cacheData_of d t0) \<noteq> []"
    and "JSON_parse rt (JSON_stringify rt (cacheData_of d t0)) = Some (cacheData_of d t0)"
    and "t1 - t0 \<le> 24 * 60 * 60 * 1000"
  shows "getFromCache rt t1 (saveToCache rt t0 d ls) = (Some d, saveToCache rt t0 d ls)"
  using assms
  by (simp add: getFromCache_def saveToCache_def setItem_def getItem_def cacheData_of_def
      js_minus_def js_greater_def cacheExpiry_def)

theorem cache_round_trip_witness:
  "getFromCache reference_runtime 1700000000250
       (saveToCache reference_runtime 1700000000000 (sample_menu) sample_storage)
     = (Some (sample_menu),
        saveToCache reference_runtime 1700000000000 (sample_menu) sample_storage)"
proof -
  let ?e = "cacheData_of (sample_menu) 1700000000000"
  have a: "available sample_storage"
    by (simp add: sample_storage_def)
  have q: "length (JSON_stringify reference_runtime ?e) \<le> quota sample_storage"
    using sample_entry_length by (simp add: sample_storage_def)
  have n: "JSON_stringify reference_runtime ?e \<noteq> []"
    using reference_runtime_reads_back [of ?e] by simp
  have r: "JSON_parse reference_runtime (JSON_stringify reference_runtime ?e) = Some ?e"
    using reference_runtime_reads_back [of ?e] by simp
  have t: "(1700000000250::int) - 1700000000000 \<le> 24 * 60 * 60 * 1000"
    by simp
  show ?thesis
    by (rule cache_round_trip [OF a q n r t])
qed

section \<open>Properties of the loader\<close>

lemma storage_showLoading [simp]: "storage (showLoading p) = storage p"
  by (simp add: showLoading_def)

lemma error_showLoading [simp]: "error (showLoading p) = error p"
  by (simp add: showLoading_def)

lemma invalid_format_nonempty: "invalid_format \<noteq> []"
  by (simp add: invalid_format_def)

text \<open>
  C1, as the code has it. After a cache miss and a response with a success status, a body
  that parses to \<^verbatim>\<open>null\<close>, a boolean, a number or a string makes \<^verbatim>\<open>loadMenuData\<close> throw an
  error with the non-empty message \<^verbatim>\<open>Formato de datos inv\<close>\<^verbatim>\<open>lido\<close>, record that message in
  the error field and leave the menu data as it was. A body that parses to an array or
  to an object passes the check: it is returned, stored as the menu data and handed to
  \<^verbatim>\<open>saveToCache\<close>, the error field is cleared and the loading flag is false.
\<close>

theorem loadMenuData_validation:
  assumes "\<not> truthy (fst (getFromCache rt now_read (storage p)))"
    and "response_ok status"
    and "p' = snd (loadMenuData rt now_read (Response status (JsonBody d)) now_save p)"
  shows "((d = JNull \<or> d = JBool b \<or> d = JNum n \<or> d = JStr s)
            \<longrightarrow> fst (loadMenuData rt now_read (Response status (JsonBody d)) now_save p)
                  = Throw invalid_format
              \<and> data p' = data p
              \<and> error p' = Some invalid_format
              \<and> \<not> isLoading p'
              \<and> storage p' = snd (getFromCache rt now_read (storage p)))
       \<and> ((d = JArr xs \<or> d = JObj kvs)
            \<longrightarrow> fst (loadMenuData rt now_read (Response status (JsonBody d)) now_save p)
                  = Return (Some d)
              \<and> data p' = Some d
              \<and> error p' = None
              \<and> \<not> isLoading p'
              \<and> storage p'
                  = saveToCache rt now_save d (snd (getFromCache rt now_read (storage p))))
       \<and> invalid_format \<noteq> []"
proof -
  obtain c ls where g: "getFromCache rt now_read (storage p) = (c, ls)"
    by (cases "getFromCache rt now_read (storage p)")
  with assms(1) have c: "\<not> truthy c"
    by simp
  have rejected: "d = JNull \<or> d = JBool b \<or> d = JNum n \<or> d = JStr s \<Longrightarrow>
      loadMenuData rt now_read (Response status (JsonBody d)) now_save p
        = load_failed invalid_format ((showLoading (p\<lparr>isLoading := True\<rparr>))\<lparr>storage := ls\<rparr>)"
    using g c assms(2) by (auto simp add: loadMenuData_def Let_def)
  have accepted: "d = JArr xs \<or> d = JObj kvs \<Longrightarrow>
      loadMenuData rt now_read (Response status (JsonBody d)) now_save p
        = (Return (Some d),
           (showLoading (p\<lparr>isLoading := True\<rparr>))
             \<lparr>storage := saveToCache rt now_save d ls, data := Some d, isLoading := False,
              error := None\<rparr>)"
    using g c assms(2) by (auto simp add: loadMenuData_def Let_def)
  show ?thesis
  proof (intro conjI impI)
    assume a: "d = JNull \<or> d = JBool b \<or> d = JNum n \<or> d = JStr s"
    show "fst (loadMenuData rt now_read (Response status (JsonBody d)) now_save p)
        = Throw invalid_format"
      using rejected [OF a] by (simp add: load_failed_def)
    show "data p' = data p" "error p' = Some invalid_format" "\<not> isLoading p'"
      "storage p' = snd (getFromCache rt now_read (storage p))"
      unfolding assms(3) rejected [OF a]
      using g by (simp_all add: load_failed_def showError_def showLoading_def)
  next
    assume a: "d = JArr xs \<or> d = JObj kvs"
    show "fst (loadMenuData rt now_read (Response status (JsonBody d)) now_save p)
        = Return (Some d)"
      using accepted [OF a] by simp
    show "data p' = Some d" "error p' = None" "\<not> isLoading p'"
      "storage p' = saveToCache rt now_save d (snd (getFromCache rt now_read (storage p)))"
      unfolding assms(3) accepted [OF a]
      using g by simp_all
  next
    show "invalid_format \<noteq> []"
      by (rule invalid_format_nonempty)
  qed
qed

theorem loadMenuData_validation_witness:
  "fst (loadMenuData reference_runtime 1700000000000 (Response 200 (JsonBody (JStr ''menu'')))
         1700000000100 sample_page) = Throw invalid_format
   \<and> data (snd (loadMenuData reference_runtime 1700000000000
         (Response 200 (JsonBody (JStr ''menu''))) 1700000000100 sample_page)) = None
   \<and> error (snd (loadMenuData reference_runtime 1700000000000
         (Response 200 (JsonBody (JStr ''menu''))) 1700000000100 sample_page))
       = Some invalid_format
   \<and> fst (loadMenuData reference_runtime 1700000000000
         (Response 200 (JsonBody sample_menu)) 1700000000100 sample_page)
       = Return (Some sample_menu)
   \<and> data (snd (loadMenuData reference_runtime 1700000000000
         (Response 200 (JsonBody sample_menu)) 1700000000100 sample_page)) = Some sample_menu
   \<and> error (snd (loadMenuData reference_runtime 1700000000000
         (Response 200 (JsonBody sample_menu)) 1700000000100 sample_page)) = None
   \<and> storage (snd (loadMenuData reference_runtime 1700000000000
         (Response 200 (JsonBody sample_menu)) 1700000000100 sample_page))
       = saveToCache reference_runtime 1700000000100 sample_menu sample_storage"
proof -
  have miss: "\<not> truthy (fst (getFromCache reference_runtime 1700000000000
                                 (storage (sample_page :: json page))))"
    by (simp add: sample_page_def sample_storage_def getFromCache_def getItem_def)
  have read: "snd (getFromCache reference_runtime 1700000000000
                     (storage (sample_page :: json page))) = sample_storage"
    by (simp add: sample_page_def sample_storage_def getFromCache_def getItem_def)
  have ok: "response_ok 200"
    by (simp add: response_ok_def)
  have start: "data (sample_page :: json page) = None"
    by (simp add: sample_page_def)
  from loadMenuData_validation [OF miss ok refl, where d = "JStr ''menu''" and s = "''menu''"
      and now_save = 1700000000100] start
  have rejected: "fst (loadMenuData reference_runtime 1700000000000
        (Response 200 (JsonBody (JStr ''menu''))) 1700000000100 sample_page) = Throw invalid_format
    \<and> data (snd (loadMenuData reference_runtime 1700000000000
         (Response 200 (JsonBody (JStr ''menu''))) 1700000000100 sample_page)) = None
    \<and> error (snd (loadMenuData reference_runtime 1700000000000
         (Response 200 (JsonBody (JStr ''menu''))) 1700000000100 sample_page))
       = Some invalid_format"
    by simp
  from loadMenuData_validation [OF miss ok refl, where d = sample_menu
      and kvs = "[(''entradas'',
            JArr [JObj [(''nombre'', JStr ''Causa''),
                        (''descripcion'', JStr ''Papa amarilla con pollo''),
                        (''precio'', JNum 12),
                        (''imagen'', JStr ''causa.jpg'')]]),
           (''bebidas'',
            JArr [JObj [(''nombre'', JStr ''Chicha morada''),
                        (''descripcion'', JStr ''Bebida de maiz morado''),
                        (''precio'', JStr ''7.5''),
                        (''imagen'', JStr ''chicha.jpg'')]]),
           (''postres'', JArr [])]"
      and now_save = 1700000000100] read
  have accepted: "fst (loadMenuData reference_runtime 1700000000000
        (Response 200 (JsonBody sample_menu)) 1700000000100 sample_page)
      = Return (Some sample_menu)
    \<and> data (snd (loadMenuData reference_runtime 1700000000000
         (Response 200 (JsonBody sample_menu)) 1700000000100 sample_page)) = Some sample_menu
    \<and> error (snd (loadMenuData reference_runtime 1700000000000
         (Response 200 (JsonBody sample_menu)) 1700000000100 sample_page)) = None
    \<and> storage (snd (loadMenuData reference_runtime 1700000000000
         (Response 200 (JsonBody sample_menu)) 1700000000100 sample_page))
       = saveToCache reference_runtime 1700000000100 sample_menu sample_storage"
    by (simp add: sample_menu_def)
  from rejected accepted show ?thesis by simp
qed

text \<open>
  C1 as stated fails: a response with status 200 whose body is the JSON array
  \<^verbatim>\<open>[1, 2]\<close> is accepted. The call returns the array, stores it as the menu data and leaves
  the error field \<^verbatim>\<open>null\<close>.
\<close>

theorem array_body_passes_validation:
  "loadMenuData reference_runtime 1700000000000 (Response 200 (JsonBody (JArr [JNum 1, JNum 2])))
       1700000000100 sample_page
     = (Return (Some (JArr [JNum 1, JNum 2])),
        (showLoading sample_page)
          \<lparr>storage := saveToCache reference_runtime 1700000000100 (JArr [JNum 1, JNum 2]) sample_storage,
           data := Some (JArr [JNum 1, JNum 2]), isLoading := False, error := None\<rparr>)"
  by (simp add: loadMenuData_def Let_def sample_page_def sample_storage_def getFromCache_def
      getItem_def response_ok_def showLoading_def)



text \<open>
  C9. A load served from the cache leaves the error field as it was. After a cache miss
  the field is \<^verbatim>\<open>null\<close> exactly when the fetch gave a success status and a body that passed
  the check; every other miss stores a message.
\<close>

theorem loadMenuData_error_field:
  "(truthy (fst (getFromCache rt now_read (storage p)))
      \<longrightarrow> error (snd (loadMenuData rt now_read net now_save p)) = error p
        \<and> fst (loadMenuData rt now_read net now_save p)
            = Return (fst (getFromCache rt now_read (storage p))))
   \<and> (\<not> truthy (fst (getFromCache rt now_read (storage q)))
      \<longrightarrow> (error (snd (loadMenuData rt now_read net now_save q)) = None
            \<longleftrightarrow> (\<exists>status d. net = Response status (JsonBody d) \<and> response_ok status
                    \<and> truthy (Some d) \<and> typeof (Some d) = ''object'')))"
  by (auto simp add: loadMenuData_def Let_def load_failed_def showError_def
      split: prod.splits fetch_outcome.splits body.splits)

theorem loadMenuData_error_field_witness:
  "error (snd (loadMenuData reference_runtime 1700000000250 (NetworkFailure ''offline'') 1700000000300
        ((sample_page :: json page)
           \<lparr>error := Some ''HTTP error! status: 500'',
            storage := saveToCache reference_runtime 1700000000000
                         (sample_menu) sample_storage\<rparr>)))
     = Some ''HTTP error! status: 500''
   \<and> error (snd (loadMenuData reference_runtime 1700000000000
        (Response 200 (JsonBody (sample_menu))) 1700000000100
        ((sample_page :: json page)\<lparr>error := Some ''HTTP error! status: 500''\<rparr>)))
     = None"
proof -
  let ?saved = "saveToCache reference_runtime 1700000000000
      (sample_menu) sample_storage"
  let ?p = "(sample_page :: json page)\<lparr>error := Some ''HTTP error! status: 500'', storage := ?saved\<rparr>"
  let ?q = "(sample_page :: json page)\<lparr>error := Some ''HTTP error! status: 500''\<rparr>"
  have "fst (getFromCache reference_runtime 1700000000250 ?saved)
      = Some (sample_menu)"
    using sample_entry_length
      reference_runtime_reads_back [of "cacheData_of (sample_menu) 1700000000000"]
    by (simp add: getFromCache_def saveToCache_def setItem_def getItem_def cacheData_of_def
        js_minus_def js_greater_def cacheExpiry_def sample_storage_def)
  then have hit: "truthy (fst (getFromCache reference_runtime 1700000000250 (storage ?p)))"
    by (simp add: sample_menu_def)
  have miss: "\<not> truthy (fst (getFromCache reference_runtime 1700000000000 (storage ?q)))"
    by (simp add: sample_page_def sample_storage_def getFromCache_def getItem_def)
  have fetched: "\<exists>status d. Response 200 (JsonBody (sample_menu))
        = Response status (JsonBody d) \<and> response_ok status \<and> truthy (Some d)
          \<and> typeof (Some d) = ''object''"
    by (simp add: response_ok_def sample_menu_def)
  have kept: "error (snd (loadMenuData reference_runtime 1700000000250 (NetworkFailure ''offline'')
        1700000000300 ?p)) = error ?p"
    using loadMenuData_error_field [where rt = reference_runtime and now_read = 1700000000250
        and p = ?p and net = "NetworkFailure ''offline''" and now_save = 1700000000300] hit
    by blast
  have cleared: "error (snd (loadMenuData reference_runtime 1700000000000
        (Response 200 (JsonBody (sample_menu))) 1700000000100 ?q)) = None"
    using loadMenuData_error_field [where rt = reference_runtime and now_read = 1700000000000
        and q = ?q and net = "Response 200 (JsonBody (sample_menu))"
        and now_save = 1700000000100] miss fetched
    by blast
  from kept cleared show ?thesis by simp
qed

section \<open>Properties of the rendering\<close>

lemma point_not_digit: "\<not> is_digit (CHR ''.'')"
  by (simp add: is_digit_def)

lemma zero_is_digit: "is_digit (CHR ''0'')"
  by (simp add: is_digit_def)

lemma spec_two_fraction_digits_point: "spec_two_fraction_digits s \<Longrightarrow> CHR ''.'' \<in> set s"
proof -
  assume a: "spec_two_fraction_digits s"
  then obtain x y z r where "rev s = x # y # CHR ''.'' # z # r"
    by (auto simp add: spec_two_fraction_digits_def split: list.splits)
  then have "CHR ''.'' \<in> set (rev s)"
    by simp
  then show ?thesis
    by simp
qed

text \<open>
  A text that ends in digits, a point and digits has two fraction digits exactly when two
  digits follow the point. The text is given from its end: \<open>g\<close> are the digits after the
  point, last one first, and \<open>c\<close> is the digit before the point.
\<close>

lemma two_fraction_digits_rev:
  assumes "rev t = g @ CHR ''.'' # c # q" and "is_digit c" and "list_all is_digit g"
  shows "spec_two_fraction_digits t \<longleftrightarrow> length g = 2"
proof (cases g)
  case Nil
  with assms show ?thesis
    by (simp add: spec_two_fraction_digits_def point_not_digit split: list.splits)
next
  case one: (Cons u g1)
  show ?thesis
  proof (cases g1)
    case Nil
    with one assms show ?thesis
      by (simp add: spec_two_fraction_digits_def point_not_digit split: list.splits)
  next
    case two: (Cons v g2)
    show ?thesis
    proof (cases g2)
      case Nil
      with one two assms show ?thesis
        by (simp add: spec_two_fraction_digits_def split: list.splits)
    next
      case (Cons x g3)
      with one two assms have "is_digit x" and "rev t = u # v # x # g3 @ CHR ''.'' # c # q"
        by simp_all
      then have "\<not> spec_two_fraction_digits t"
        using point_not_digit
        by (cases "g3 @ CHR ''.'' # c # q") (auto simp add: spec_two_fraction_digits_def)
      with one two Cons show ?thesis
        by simp
    qed
  qed
qed

lemma two_fraction_digits_iff:
  assumes "a \<noteq> []" and "list_all is_digit a" and "list_all is_digit f"
  shows "spec_two_fraction_digits (pre @ a @ CHR ''.'' # f) \<longleftrightarrow> length f = 2"
proof -
  from assms(1) obtain a1 c where a: "a = a1 @ [c]"
    by (cases a rule: rev_cases) auto
  with assms(2) have c: "is_digit c"
    by simp
  have "rev (pre @ a @ CHR ''.'' # f) = rev f @ CHR ''.'' # c # (rev a1 @ rev pre)"
    using a by simp
  from two_fraction_digits_rev [OF this c] assms(3) show ?thesis
    by simp
qed

text \<open>
  The text of a number from \<open>10\<^sup>-\<^sup>6\<close> up to below \<open>10\<^sup>2\<^sup>1\<close>, after a prefix without a
  point: it has two fraction digits exactly when the number's shortest decimal form has
  two digits after the point.
\<close>

lemma digits_toString_fraction:
  assumes "0 < m" and "- 6 < n" and "n \<le> 21" and "CHR ''.'' \<notin> set pre"
  shows "spec_two_fraction_digits (pre @ digits_toString m n)
           \<longleftrightarrow> int (length (show_digits m)) - n = 2"
proof -
  let ?ds = "show_digits m"
  let ?k = "int (length ?ds)"
  have ds: "list_all is_digit ?ds"
    using assms(1) by (simp add: show_digits_all_digits)
  have ne: "?ds \<noteq> []"
    by (rule show_digits_nonempty)
  have pos: "0 < ?k"
    using ne by simp
  consider (whole) "?k \<le> n" | (inside) "0 < n" "n < ?k" | (small) "n \<le> 0"
    by linarith
  then show ?thesis
  proof cases
    case whole
    then have t: "digits_toString m n = ?ds @ replicate (nat (n - ?k)) (CHR ''0'')"
      using assms(3) by (simp add: digits_toString_def Let_def)
    have "list_all is_digit (digits_toString m n)"
      unfolding t using ds zero_is_digit by (auto simp add: list_all_iff)
    then have "CHR ''.'' \<notin> set (digits_toString m n)"
      using point_not_digit by (auto simp add: list_all_iff)
    then have "\<not> spec_two_fraction_digits (pre @ digits_toString m n)"
      using assms(4) spec_two_fraction_digits_point [of "pre @ digits_toString m n"] by auto
    then show ?thesis
      using whole by auto
  next
    case inside
    then have t: "digits_toString m n = take (nat n) ?ds @ CHR ''.'' # drop (nat n) ?ds"
      using assms(3) by (simp add: digits_toString_def Let_def)
    have "take (nat n) ?ds \<noteq> []"
      using inside ne by simp
    moreover have "list_all is_digit (take (nat n) ?ds)" "list_all is_digit (drop (nat n) ?ds)"
      using ds by (auto simp add: list_all_iff dest: in_set_takeD in_set_dropD)
    ultimately have "spec_two_fraction_digits (pre @ digits_toString m n)
        \<longleftrightarrow> length (drop (nat n) ?ds) = 2"
      unfolding t by (rule two_fraction_digits_iff)
    then show ?thesis
      using inside by auto
  next
    case small
    then have "\<not> ?k \<le> n"
      using pos by linarith
    with small have t: "digits_toString m n
        = ''0'' @ CHR ''.'' # (replicate (nat (- n)) (CHR ''0'') @ ?ds)"
      using assms(2) by (simp add: digits_toString_def Let_def)
    have "list_all is_digit (replicate (nat (- n)) (CHR ''0'') @ ?ds)"
      using ds zero_is_digit by (auto simp add: list_all_iff)
    moreover have "list_all is_digit ''0''"
      using zero_is_digit by simp
    ultimately have "spec_two_fraction_digits (pre @ digits_toString m n)
        \<longleftrightarrow> length (replicate (nat (- n)) (CHR ''0'') @ ?ds) = 2"
      unfolding t by (intro two_fraction_digits_iff) simp_all
    then show ?thesis
      using small by auto
  qed
qed

text \<open>
  C2, as the code has it. The card's markup and the modal's price text hold \<^verbatim>\<open>S/\<close> and a
  space followed by the stored price converted to a string, with no rounding and no
  padding. A string price appears as it is. A number price appears as \<^verbatim>\<open>Number::toString\<close>
  writes it: a whole number below \<open>10\<^sup>2\<^sup>1\<close> as its digits alone, and any number from
  \<open>10\<^sup>-\<^sup>6\<close> up to below \<open>10\<^sup>2\<^sup>1\<close> with exactly the fraction digits of its shortest decimal
  form, so with two fraction digits only when that form has two.
\<close>

theorem price_shown_as_stored:
  "card_innerHTML (createMenuCard plato index)
     = card_head plato @ ''S/ '' @ to_string (precio plato) @ card_tail
   \<and> (modal w \<noteq> None \<and> modalPrice w \<noteq> None
        \<longrightarrow> modalPrice (openMenuModal plato w) = Some (''S/ '' @ to_string (precio plato)))
   \<and> (precio plato = PriceString s \<longrightarrow> to_string (precio plato) = s)
   \<and> (precio plato = PriceNumber x \<longrightarrow> to_string (precio plato) = Number_toString x)
   \<and> (precio plato = PriceNumber (Finite negative m n) \<and> shortest_form (Finite negative m n)
        \<longrightarrow> (int (length (show_digits m)) \<le> n \<and> n \<le> 21
              \<longrightarrow> to_string (precio plato)
                    = (if negative then ''-'' else []) @ show_digits m
                      @ replicate (nat (n - int (length (show_digits m)))) (CHR ''0''))
          \<and> (- 6 < n \<and> n \<le> 21
              \<longrightarrow> (spec_two_fraction_digits (''S/ '' @ to_string (precio plato))
                    \<longleftrightarrow> int (length (show_digits m)) - n = 2)))"
proof (intro conjI impI)
  show "card_innerHTML (createMenuCard plato index)
      = card_head plato @ ''S/ '' @ to_string (precio plato) @ card_tail"
    by (simp add: createMenuCard_def)
next
  assume "modal w \<noteq> None \<and> modalPrice w \<noteq> None"
  then show "modalPrice (openMenuModal plato w) = Some (''S/ '' @ to_string (precio plato))"
    by (auto simp add: openMenuModal_def Let_def setTimeout_def requestAnimationFrame_def
        setupFocusTrap_def)
next
  assume "precio plato = PriceString s"
  then show "to_string (precio plato) = s"
    by simp
next
  assume "precio plato = PriceNumber x"
  then show "to_string (precio plato) = Number_toString x"
    by simp
next
  assume p: "precio plato = PriceNumber (Finite negative m n) \<and> shortest_form (Finite negative m n)"
    and w: "int (length (show_digits m)) \<le> n \<and> n \<le> 21"
  then show "to_string (precio plato)
      = (if negative then ''-'' else []) @ show_digits m
        @ replicate (nat (n - int (length (show_digits m)))) (CHR ''0'')"
    by (simp add: digits_toString_def Let_def)
next
  assume p: "precio plato = PriceNumber (Finite negative m n) \<and> shortest_form (Finite negative m n)"
    and r: "- 6 < n \<and> n \<le> 21"
  from p have m: "0 < m"
    by (simp add: shortest_form_def)
  have "spec_two_fraction_digits ((''S/ '' @ (if negative then ''-'' else [])) @ digits_toString m n)
      \<longleftrightarrow> int (length (show_digits m)) - n = 2"
    using m r by (intro digits_toString_fraction) simp_all
  then show "spec_two_fraction_digits (''S/ '' @ to_string (precio plato))
      \<longleftrightarrow> int (length (show_digits m)) - n = 2"
    using p by (cases negative) simp_all
qed

theorem price_shown_as_stored_witness:
  "card_innerHTML (createMenuCard lomo 0) = card_head lomo @ ''S/ 12.55'' @ card_tail
   \<and> modalPrice (openMenuModal lomo sample_modal_world) = Some ''S/ 12.55''
   \<and> spec_two_fraction_digits ''S/ 12.55''
   \<and> modalPrice (openMenuModal anticucho sample_modal_world) = Some ''S/ 12.5''
   \<and> \<not> spec_two_fraction_digits ''S/ 12.5''
   \<and> modalPrice (openMenuModal causa sample_modal_world) = Some ''S/ 12''
   \<and> modalPrice (openMenuModal chicha sample_modal_world) = Some ''S/ 7.5''"
proof -
  have present: "modal sample_modal_world \<noteq> None \<and> modalPrice sample_modal_world \<noteq> None"
    by (simp add: sample_modal_world_def)
  have d1255: "show_digits 1255 = ''1255''" and d125: "show_digits 125 = ''125''"
    and d12: "show_digits 12 = ''12''"
    by code_simp+
  have lomo_price: "precio lomo = PriceNumber (Finite False 1255 2)
      \<and> shortest_form (Finite False 1255 2)"
    by (simp add: lomo_def shortest_form_def)
  have lomo_text: "Number_toString (Finite False 1255 2) = ''12.55''"
    using d1255 by (simp add: digits_toString_def Let_def)
  have anticucho_price: "precio anticucho = PriceNumber (Finite False 125 2)
      \<and> shortest_form (Finite False 125 2)"
    by (simp add: anticucho_def shortest_form_def)
  have anticucho_text: "Number_toString (Finite False 125 2) = ''12.5''"
    using d125 by (simp add: digits_toString_def Let_def)
  have causa_price: "precio causa = PriceNumber (Finite False 12 2)
      \<and> shortest_form (Finite False 12 2)"
    by (simp add: causa_def shortest_form_def)
  have chicha_price: "precio chicha = PriceString ''7.5''"
    by (simp add: chicha_def)
  from price_shown_as_stored [where plato = lomo and index = 0 and w = sample_modal_world
      and x = "Finite False 1255 2" and negative = False and m = 1255 and n = 2]
    present lomo_price lomo_text d1255
  have a: "card_innerHTML (createMenuCard lomo 0) = card_head lomo @ ''S/ 12.55'' @ card_tail
      \<and> modalPrice (openMenuModal lomo sample_modal_world) = Some ''S/ 12.55''
      \<and> spec_two_fraction_digits ''S/ 12.55''"
    by simp
  from price_shown_as_stored [where plato = anticucho and index = 0 and w = sample_modal_world
      and x = "Finite False 125 2" and negative = False and m = 125 and n = 2]
    present anticucho_price anticucho_text d125
  have b: "modalPrice (openMenuModal anticucho sample_modal_world) = Some ''S/ 12.5''
      \<and> \<not> spec_two_fraction_digits ''S/ 12.5''"
    by simp
  from price_shown_as_stored [where plato = causa and index = 0 and w = sample_modal_world
      and x = "Finite False 12 2" and negative = False and m = 12 and n = 2]
    present causa_price d12
  have c: "modalPrice (openMenuModal causa sample_modal_world) = Some ''S/ 12''"
    by simp
  from price_shown_as_stored [where plato = chicha and index = 0 and w = sample_modal_world
      and s = "''7.5''"] present chicha_price
  have d: "modalPrice (openMenuModal chicha sample_modal_world) = Some ''S/ 7.5''"
    by simp
  from a b c d show ?thesis
    by simp
qed

text \<open>
  C2 as stated fails: the dish with the whole-number price 12 is shown as \<^verbatim>\<open>S/ 12\<close> on its
  card and in the modal, without fraction digits.
\<close>

theorem whole_price_shown_without_decimals:
  "card_innerHTML (createMenuCard causa 0) = card_head causa @ ''S/ 12'' @ card_tail
   \<and> modalPrice (openMenuModal causa sample_modal_world) = Some ''S/ 12''
   \<and> \<not> spec_two_fraction_digits ''S/ 12''"
proof -
  have "show_digits 12 = ''12''"
    by code_simp
  then show ?thesis
    by (simp add: createMenuCard_def causa_def openMenuModal_def sample_modal_world_def Let_def
        setTimeout_def requestAnimationFrame_def setupFocusTrap_def spec_two_fraction_digits_def
        is_digit_def digits_toString_def)
qed

text \<open>A price of \<open>10\<^sup>2\<^sup>1\<close> or more is written in exponent form.\<close>

lemma large_price_in_exponent_form:
  "to_string (PriceNumber (Finite False 1 22)) = ''1e+21''
   \<and> to_string (PriceNumber (Finite False 15 23)) = ''1.5e+22''"
proof -
  have "show_digits 1 = ''1''" "show_digits 15 = ''15''" "show_digits 21 = ''21''"
    "show_digits 22 = ''22''"
    by code_simp+
  then show ?thesis
    by (simp add: digits_toString_def Let_def)
qed

lemma cards_from_append:
  "cards_from i (xs @ ys) = cards_from i xs @ cards_from (i + length xs) ys"
  by (induction xs arbitrary: i) simp_all

lemma cards_from_empty: "cards_from i platos = [] \<longleftrightarrow> platos = []"
  by (cases platos) simp_all

lemma shown_dishes_cards_from: "shown_dishes (cards_from i platos) = platos"
  by (induction platos arbitrary: i) (simp_all add: createMenuCard_def)

lemma append_cards_result:
  "append_cards platos i kids = (i + length platos, kids @ cards_from i platos)"
  by (induction platos arbitrary: i kids) simp_all

lemma get_member_own:
  "distinct (map fst d) \<Longrightarrow> (x, platos) \<in> set d \<Longrightarrow> get_member d x = Own platos"
  by (simp add: get_member_def)

lemma get_member_undefined:
  "y \<notin> fst ` set d \<Longrightarrow> y \<notin> fst ` set Object_prototype \<Longrightarrow> get_member d y = Undefined"
  using map_of_eq_None_iff [of d y] map_of_eq_None_iff [of Object_prototype y]
  by (simp add: get_member_def)

lemma set_own_properties: "set (own_properties d) = set d"
  by (auto simp add: own_properties_def)

lemma length_own_properties: "length (own_properties d) = length d"
proof -
  have "length (filter (\<lambda>kv. array_index (fst kv) \<noteq> None) d)
      + length (filter (\<lambda>kv. \<not> array_index (fst kv) \<noteq> None) d) = length d"
    by (rule sum_length_filter_compl)
  then show ?thesis
    by (simp add: own_properties_def)
qed

lemma own_properties_plain:
  assumes "\<forall>k \<in> fst ` set d. array_index k = None"
  shows "own_properties d = d"
proof -
  have "filter (\<lambda>kv. array_index (fst kv) \<noteq> None) d = []"
    using assms by (auto simp add: filter_empty_conv)
  moreover have "filter (\<lambda>kv. array_index (fst kv) = None) d = d"
    using assms by (auto simp add: filter_id_conv)
  ultimately show ?thesis
    by (simp add: own_properties_def)
qed

text \<open>The loops over names that are all own properties, given with their dishes.\<close>

lemma detailed_loop_own:
  assumes "\<forall>kv \<in> set es. get_member d (fst kv) = Own (snd kv)"
  shows "detailed_loop d (map fst es) i kids
           = (Return (), i + length (concat (map snd es)),
              kids @ cards_from i (concat (map snd es)))"
  using assms
proof (induction es arbitrary: i kids)
  case Nil
  show ?case by simp
next
  case (Cons kv es)
  from Cons.prems have own: "get_member d (fst kv) = Own (snd kv)"
    and rest: "\<forall>kv \<in> set es. get_member d (fst kv) = Own (snd kv)"
    by simp_all
  show ?case
    using own Cons.IH [OF rest, of "i + length (snd kv)" "kids @ cards_from i (snd kv)"]
    by (simp add: append_cards_result cards_from_append add.assoc)
qed

lemma simple_loop_own:
  assumes "\<forall>kv \<in> set es. get_member d (fst kv) = Own (snd kv)"
  shows "simple_loop rt d (map fst es) kids
           = (Return (), kids @ concat (map (simple_section rt) es))"
  using assms
proof (induction es arbitrary: kids)
  case Nil
  show ?case by simp
next
  case (Cons kv es)
  from Cons.prems have own: "get_member d (fst kv) = Own (snd kv)"
    and rest: "\<forall>kv \<in> set es. get_member d (fst kv) = Own (snd kv)"
    by simp_all
  show ?case
  proof (cases "snd kv = []")
    case True
    then show ?thesis
      using own Cons.IH [OF rest, of kids] by (simp add: simple_section_def)
  next
    case False
    then show ?thesis
      using own Cons.IH [OF rest, of "kids @ simple_section rt kv"]
      by (simp add: simple_section_def)
  qed
qed

lemma simple_sections_empty:
  "concat (map (simple_section rt) es) = [] \<longleftrightarrow> concat (map snd es) = []"
  by (induction es) (simp_all add: simple_section_def)

text \<open>Both renderers on a list of names that are all own properties.\<close>

lemma renderDetailedView_own:
  assumes "menuGrid p \<noteq> None"
    and "categories_of d (category_or_all c) = map fst es"
    and "\<forall>kv \<in> set es. get_member d (fst kv) = Own (snd kv)"
  shows "fst (renderDetailedView d c p) = Return ()
       \<and> grid_children (snd (renderDetailedView d c p)) = detailed_nodes (concat (map snd es))"
proof -
  obtain g where g: "menuGrid p = Some g"
    using assms(1) by auto
  show ?thesis
    using g assms(2) detailed_loop_own [OF assms(3), of 0 "[]"]
    by (simp add: renderDetailedView_def grid_children_def detailed_nodes_def)
qed

lemma renderSimpleView_own:
  assumes "menuSimple p \<noteq> None"
    and "categories_of d (category_or_all c) = map fst es"
    and "\<forall>kv \<in> set es. get_member d (fst kv) = Own (snd kv)"
  shows "fst (renderSimpleView rt d c p) = Return ()
       \<and> simple_children (snd (renderSimpleView rt d c p)) = simple_nodes rt es"
proof -
  obtain g where g: "menuSimple p = Some g"
    using assms(1) by auto
  have "es = [] \<Longrightarrow> concat (map snd es) = []"
    by simp
  then show ?thesis
    using g assms(2) simple_loop_own [OF assms(3), of rt "[]"] simple_sections_empty [of rt es]
    by (auto simp add: renderSimpleView_def simple_children_def simple_nodes_def Let_def)
qed

text \<open>Both renderers on a single name that the catalog and \<^verbatim>\<open>Object.prototype\<close> lack.\<close>

lemma render_undefined:
  assumes "menuGrid p \<noteq> None" and "menuSimple p \<noteq> None"
    and "y \<noteq> ''all''" and "get_member d y = Undefined"
  shows "renderDetailedView d (Some y) p
           = (Return (), p\<lparr>menuGrid := map_option (\<lambda>g. g\<lparr>children := [Paragraph no_items]\<rparr>) (menuGrid p)\<rparr>)
       \<and> renderSimpleView rt d (Some y) p
           = (Return (), p\<lparr>menuSimple := map_option (\<lambda>g. g\<lparr>children := [Paragraph no_items]\<rparr>) (menuSimple p)\<rparr>)"
  using assms
  by (auto simp add: renderDetailedView_def renderSimpleView_def categories_of_def
      category_or_all_def Let_def)

text \<open>
  C4, as the code has it. For a catalog (category names unique) on a page that has both
  containers, neither renderer throws and each container ends up holding exactly the
  following. With \<^verbatim>\<open>"all"\<close>: the dishes of every category, one category after the other in
  \<^verbatim>\<open>Object.keys\<close> order, each category's dishes in their list order. \<^verbatim>\<open>Object.keys\<close> lists
  every category once; its order is the catalog's insertion order when no category name
  is an array index. With the name of a category: just the dishes listed under it. With
  a name that neither the catalog nor \<^verbatim>\<open>Object.prototype\<close> has: the single paragraph
  \<^verbatim>\<open>No hay platos en esta categor\<close>\<^verbatim>\<open>a.\<close> A list of dishes appears on the grid as one card per
  dish, and in the simple view as a heading and an item list per category that has
  dishes; where there is no dish to show, the paragraph stands alone.
\<close>

theorem render_selects_dishes:
  assumes "distinct (map fst d)"
    and "menuGrid p \<noteq> None" and "menuSimple p \<noteq> None"
    and "x \<noteq> ''all''" and "y \<noteq> ''all''"
  shows "fst (renderDetailedView d (Some ''all'') p) = Return ()
       \<and> grid_children (snd (renderDetailedView d (Some ''all'') p))
           = detailed_nodes (concat (map snd (own_properties d)))
       \<and> fst (renderSimpleView rt d (Some ''all'') p) = Return ()
       \<and> simple_children (snd (renderSimpleView rt d (Some ''all'') p))
           = simple_nodes rt (own_properties d)
       \<and> set (own_properties d) = set d
       \<and> length (own_properties d) = length d
       \<and> ((\<forall>k \<in> fst ` set d. array_index k = None) \<longrightarrow> own_properties d = d)
       \<and> ((x, platos) \<in> set d
            \<longrightarrow> fst (renderDetailedView d (Some x) p) = Return ()
              \<and> grid_children (snd (renderDetailedView d (Some x) p)) = detailed_nodes platos
              \<and> fst (renderSimpleView rt d (Some x) p) = Return ()
              \<and> simple_children (snd (renderSimpleView rt d (Some x) p))
                  = simple_nodes rt [(x, platos)])
       \<and> (y \<notin> fst ` set d \<and> y \<notin> fst ` set Object_prototype
            \<longrightarrow> fst (renderDetailedView d (Some y) p) = Return ()
              \<and> grid_children (snd (renderDetailedView d (Some y) p)) = [Paragraph no_items]
              \<and> fst (renderSimpleView rt d (Some y) p) = Return ()
              \<and> simple_children (snd (renderSimpleView rt d (Some y) p)) = [Paragraph no_items])"
proof -
  have keys: "categories_of d (category_or_all (Some ''all'')) = map fst (own_properties d)"
    by (simp add: categories_of_def category_or_all_def Object_keys_def)
  have own: "\<forall>kv \<in> set (own_properties d). get_member d (fst kv) = Own (snd kv)"
    using assms(1) get_member_own [of d] by (auto simp add: set_own_properties)
  have one: "categories_of d (category_or_all (Some x)) = map fst [(x, platos)]"
    using assms(4) by (simp add: categories_of_def category_or_all_def)
  have single: "(x, platos) \<in> set d
      \<Longrightarrow> \<forall>kv \<in> set [(x, platos)]. get_member d (fst kv) = Own (snd kv)"
    using assms(1) by (simp add: get_member_own)
  have absent: "y \<notin> fst ` set d \<and> y \<notin> fst ` set Object_prototype
      \<Longrightarrow> fst (renderDetailedView d (Some y) p) = Return ()
        \<and> grid_children (snd (renderDetailedView d (Some y) p)) = [Paragraph no_items]
        \<and> fst (renderSimpleView rt d (Some y) p) = Return ()
        \<and> simple_children (snd (renderSimpleView rt d (Some y) p)) = [Paragraph no_items]"
  proof -
    assume "y \<notin> fst ` set d \<and> y \<notin> fst ` set Object_prototype"
    then have "get_member d y = Undefined"
      by (simp add: get_member_undefined)
    from render_undefined [OF assms(2,3,5) this, of rt] assms(2,3) show ?thesis
      by (auto simp add: grid_children_def simple_children_def)
  qed
  show ?thesis
    using renderDetailedView_own [OF assms(2) keys own]
      renderSimpleView_own [OF assms(3) keys own, of rt]
      renderDetailedView_own [OF assms(2) one single]
      renderSimpleView_own [OF assms(3) one single, of rt]
      absent set_own_properties [of d] length_own_properties [of d] own_properties_plain [of d]
    by simp
qed

lemma sample_names_plain: "\<forall>k \<in> fst ` set sample_catalog. array_index k = None"
  by (simp add: sample_catalog_def array_index_def is_digit_def)

theorem render_selects_dishes_witness:
  "grid_children (snd (renderDetailedView sample_catalog (Some ''all'')
       (sample_page :: catalog page)))
     = [Card (createMenuCard causa 0) 0, Card (createMenuCard chicha 1) 50]
   \<and> simple_children (snd (renderSimpleView reference_runtime sample_catalog (Some ''all'')
       (sample_page :: catalog page)))
     = [Heading ''Entradas'', ItemList [simple_item causa],
        Heading ''Bebidas'', ItemList [simple_item chicha]]
   \<and> grid_children (snd (renderDetailedView sample_catalog (Some ''bebidas'')
       (sample_page :: catalog page))) = [Card (createMenuCard chicha 0) 0]
   \<and> simple_children (snd (renderSimpleView reference_runtime sample_catalog (Some ''bebidas'')
       (sample_page :: catalog page))) = [Heading ''Bebidas'', ItemList [simple_item chicha]]
   \<and> grid_children (snd (renderDetailedView sample_catalog (Some ''postres'')
       (sample_page :: catalog page))) = [Paragraph no_items]
   \<and> fst (renderDetailedView sample_catalog (Some ''sopas'') (sample_page :: catalog page))
     = Return ()
   \<and> grid_children (snd (renderDetailedView sample_catalog (Some ''sopas'')
       (sample_page :: catalog page))) = [Paragraph no_items]
   \<and> simple_children (snd (renderSimpleView reference_runtime sample_catalog (Some ''sopas'')
       (sample_page :: catalog page))) = [Paragraph no_items]"
proof -
  have names: "distinct (map fst sample_catalog)"
    by (simp add: sample_catalog_def)
  have grid: "menuGrid (sample_page :: catalog page) \<noteq> None"
    and box: "menuSimple (sample_page :: catalog page) \<noteq> None"
    by (simp_all add: sample_page_def)
  have x: "''bebidas'' \<noteq> ''all''" and x': "''postres'' \<noteq> ''all''" and y: "''sopas'' \<noteq> ''all''"
    by simp_all
  have present: "(''bebidas'', [chicha]) \<in> set sample_catalog"
    and empty: "(''postres'', []) \<in> set sample_catalog"
    and absent: "''sopas'' \<notin> fst ` set sample_catalog \<and> ''sopas'' \<notin> fst ` set Object_prototype"
    by (simp_all add: sample_catalog_def Object_prototype_def)
  have cards: "detailed_nodes (concat (map snd sample_catalog))
      = [Card (createMenuCard causa 0) 0, Card (createMenuCard chicha 1) 50]"
    "detailed_nodes [chicha] = [Card (createMenuCard chicha 0) 0]"
    "detailed_nodes [] = [Paragraph no_items]"
    by (simp_all add: detailed_nodes_def sample_catalog_def animationDelay_def)
  have upper: "capitalizeFirst reference_runtime ''entradas'' = ''Entradas''"
    "capitalizeFirst reference_runtime ''bebidas'' = ''Bebidas''"
    by code_simp+
  have items: "simple_nodes reference_runtime sample_catalog
      = [Heading ''Entradas'', ItemList [simple_item causa],
         Heading ''Bebidas'', ItemList [simple_item chicha]]"
    "simple_nodes reference_runtime [(''bebidas'', [chicha])]
      = [Heading ''Bebidas'', ItemList [simple_item chicha]]"
    using upper by (simp_all add: simple_nodes_def simple_section_def sample_catalog_def)
  from render_selects_dishes [OF names grid box x y, of reference_runtime "[chicha]"]
    present absent sample_names_plain cards items
  have a: "grid_children (snd (renderDetailedView sample_catalog (Some ''all'')
       (sample_page :: catalog page)))
     = [Card (createMenuCard causa 0) 0, Card (createMenuCard chicha 1) 50]
   \<and> simple_children (snd (renderSimpleView reference_runtime sample_catalog (Some ''all'')
       (sample_page :: catalog page)))
     = [Heading ''Entradas'', ItemList [simple_item causa],
        Heading ''Bebidas'', ItemList [simple_item chicha]]
   \<and> grid_children (snd (renderDetailedView sample_catalog (Some ''bebidas'')
       (sample_page :: catalog page))) = [Card (createMenuCard chicha 0) 0]
   \<and> simple_children (snd (renderSimpleView reference_runtime sample_catalog (Some ''bebidas'')
       (sample_page :: catalog page))) = [Heading ''Bebidas'', ItemList [simple_item chicha]]
   \<and> fst (renderDetailedView sample_catalog (Some ''sopas'') (sample_page :: catalog page))
     = Return ()
   \<and> grid_children (snd (renderDetailedView sample_catalog (Some ''sopas'')
       (sample_page :: catalog page))) = [Paragraph no_items]
   \<and> simple_children (snd (renderSimpleView reference_runtime sample_catalog (Some ''sopas'')
       (sample_page :: catalog page))) = [Paragraph no_items]"
    by simp
  from render_selects_dishes [OF names grid box x' y, of reference_runtime "[]"] empty cards
  have b: "grid_children (snd (renderDetailedView sample_catalog (Some ''postres'')
       (sample_page :: catalog page))) = [Paragraph no_items]"
    by simp
  from a b show ?thesis
    by simp
qed

text \<open>
  C4 as stated fails in two ways. A category named \<^verbatim>\<open>2024\<close> that was inserted after
  \<^verbatim>\<open>entradas\<close> is rendered before it, because \<^verbatim>\<open>Object.keys\<close> lists array indices first. And
  the name \<^verbatim>\<open>constructor\<close>, which the catalog does not have, reaches the member that every
  object inherits: the detailed view throws a \<^verbatim>\<open>TypeError\<close> and leaves the grid empty,
  without the placeholder, and the simple view throws after appending a heading.
\<close>

theorem render_order_and_inherited_name:
  "shown_dishes (grid_children (snd (renderDetailedView
       [(''entradas'', [causa]), (''2024'', [chicha])] (Some ''all'')
       (sample_page :: catalog page)))) = [chicha, causa]
   \<and> renderDetailedView sample_catalog (Some ''constructor'') (sample_page :: catalog page)
     = (Throw not_a_function, sample_page\<lparr>menuGrid := Some (sample_element\<lparr>children := []\<rparr>)\<rparr>)
   \<and> renderSimpleView reference_runtime sample_catalog (Some ''constructor'')
       (sample_page :: catalog page)
     = (Throw not_a_function,
        sample_page\<lparr>menuSimple := Some (sample_element\<lparr>children := [Heading ''Constructor'']\<rparr>)\<rparr>)"
proof -
  have keys: "own_properties [(''entradas'', [causa]), (''2024'', [chicha])]
      = [(''2024'', [chicha]), (''entradas'', [causa])]"
    by (simp add: own_properties_def array_index_def index_of_def is_digit_def int_of_digits_def)
  have member: "get_member sample_catalog ''constructor'' = Inherited (Some 1)"
    by (simp add: get_member_def sample_catalog_def Object_prototype_def)
  have upper: "capitalizeFirst reference_runtime ''constructor'' = ''Constructor''"
    by code_simp
  have order: "shown_dishes (grid_children (snd (renderDetailedView
       [(''entradas'', [causa]), (''2024'', [chicha])] (Some ''all'')
       (sample_page :: catalog page)))) = [chicha, causa]"
    using keys
    by (simp add: renderDetailedView_def categories_of_def category_or_all_def Object_keys_def
        sample_page_def grid_children_def get_member_def createMenuCard_def)
  have detailed: "renderDetailedView sample_catalog (Some ''constructor'') (sample_page :: catalog page)
     = (Throw not_a_function, sample_page\<lparr>menuGrid := Some (sample_element\<lparr>children := []\<rparr>)\<rparr>)"
    using member
    by (simp add: renderDetailedView_def categories_of_def category_or_all_def sample_page_def)
  have simple: "renderSimpleView reference_runtime sample_catalog (Some ''constructor'')
       (sample_page :: catalog page)
     = (Throw not_a_function,
        sample_page\<lparr>menuSimple := Some (sample_element\<lparr>children := [Heading ''Constructor'']\<rparr>)\<rparr>)"
    using member upper
    by (simp add: renderSimpleView_def categories_of_def category_or_all_def sample_page_def Let_def)
  from order detailed simple show ?thesis
    by simp
qed

section \<open>Properties of the filters\<close>

lemma controls_renderDetailedView:
  "renderDetailedView d c p = (r, q) \<Longrightarrow> controls q = controls p"
  by (auto simp add: renderDetailedView_def split: option.splits prod.splits completion.splits)

lemma controls_renderSimpleView:
  "renderSimpleView rt d c p = (r, q) \<Longrightarrow> controls q = controls p"
  by (auto simp add: renderSimpleView_def Let_def
      split: option.splits prod.splits completion.splits)

lemma controls_scrollToMenu [simp]: "controls (scrollToMenu p) = controls p"
  by (simp add: scrollToMenu_def Let_def split: option.splits)

lemma controls_announceFilterChange [simp]: "controls (announceFilterChange c p) = controls p"
  by (simp add: announceFilterChange_def Let_def)

lemma controls_applyFilter:
  "controls (snd (applyFilter rt category p)) = updateFilterButtons category (controls p)"
  by (auto simp add: applyFilter_def Let_def
      dest!: controls_renderDetailedView controls_renderSimpleView
      split: option.splits prod.splits completion.splits)

lemma update_button_marks:
  assumes "is_filter_btn b"
  shows "is_filter_btn (update_button category b)
       \<and> dataset_category (update_button category b) = dataset_category b
       \<and> (is_active (update_button category b) \<longleftrightarrow> dataset_category b = category)
       \<and> aria_pressed (update_button category b)
           = Some (if dataset_category b = category then ''true'' else ''false'')"
  using assms
  by (auto simp add: update_button_def Let_def is_filter_btn_def is_active_def bool_string_def
      classList_toggle_def classList_add_def classList_remove_def)

lemma updateFilterButtons_active:
  "filter (\<lambda>b. is_filter_btn b \<and> is_active b) (updateFilterButtons category cs)
     = map (update_button category)
         (filter (\<lambda>b. is_filter_btn b \<and> dataset_category b = category) cs)"
proof (induction cs)
  case Nil
  show ?case by (simp add: updateFilterButtons_def)
next
  case (Cons c cs)
  then have ih: "filter (\<lambda>b. is_filter_btn b \<and> is_active b)
        (map (\<lambda>b. if is_filter_btn b then update_button category b else b) cs)
      = map (update_button category)
          (filter (\<lambda>b. is_filter_btn b \<and> dataset_category b = category) cs)"
    by (simp add: updateFilterButtons_def)
  show ?case
  proof (cases "is_filter_btn c")
    case True
    with update_button_marks [OF True, of category] ih show ?thesis
      by (simp add: updateFilterButtons_def)
  next
    case False
    with ih show ?thesis
      by (simp add: updateFilterButtons_def)
  qed
qed

text \<open>
  C3, as the code has it. After \<^verbatim>\<open>applyFilter(category)\<close> a filter control carries the active
  marker, and has \<^verbatim>\<open>aria-pressed\<close> \<^verbatim>\<open>true\<close>, exactly when its category attribute equals the
  argument; every other filter control has \<^verbatim>\<open>aria-pressed\<close> \<^verbatim>\<open>false\<close>. So there are as many
  active controls as controls with that category: one when one control matches, none when
  none does.
\<close>

theorem applyFilter_marks_matching_controls:
  "(\<forall>b \<in> set (controls (snd (applyFilter rt category p))).
        is_filter_btn b \<longrightarrow>
          (is_active b \<longleftrightarrow> dataset_category b = category)
          \<and> aria_pressed b = Some (if dataset_category b = category then ''true'' else ''false''))
   \<and> length (filter (\<lambda>b. is_filter_btn b \<and> is_active b) (controls (snd (applyFilter rt category p))))
       = length (filter (\<lambda>b. is_filter_btn b \<and> dataset_category b = category) (controls p))
   \<and> map dataset_category (controls (snd (applyFilter rt category p))) = map dataset_category (controls p)
   \<and> map is_filter_btn (controls (snd (applyFilter rt category p))) = map is_filter_btn (controls p)"
proof -
  have each: "\<forall>b \<in> set (updateFilterButtons category (controls p)).
        is_filter_btn b \<longrightarrow>
          (is_active b \<longleftrightarrow> dataset_category b = category)
          \<and> aria_pressed b = Some (if dataset_category b = category then ''true'' else ''false'')"
  proof
    fix b
    assume "b \<in> set (updateFilterButtons category (controls p))"
    then obtain c where c: "c \<in> set (controls p)"
        "b = (if is_filter_btn c then update_button category c else c)"
      by (auto simp add: updateFilterButtons_def)
    show "is_filter_btn b \<longrightarrow>
          (is_active b \<longleftrightarrow> dataset_category b = category)
          \<and> aria_pressed b = Some (if dataset_category b = category then ''true'' else ''false'')"
    proof (cases "is_filter_btn c")
      case True
      with c update_button_marks [OF True, of category] show ?thesis
        by simp
    next
      case False
      with c show ?thesis
        by simp
    qed
  qed
  have count: "length (filter (\<lambda>b. is_filter_btn b \<and> is_active b)
        (updateFilterButtons category (controls p)))
      = length (filter (\<lambda>b. is_filter_btn b \<and> dataset_category b = category) (controls p))"
    by (simp add: updateFilterButtons_active)
  have same: "\<And>c. dataset_category (if is_filter_btn c then update_button category c else c)
        = dataset_category c
      \<and> is_filter_btn (if is_filter_btn c then update_button category c else c) = is_filter_btn c"
    using update_button_marks by simp
  have cats: "map dataset_category (updateFilterButtons category (controls p))
      = map dataset_category (controls p)"
    and kinds: "map is_filter_btn (updateFilterButtons category (controls p))
      = map is_filter_btn (controls p)"
    using same by (simp_all add: updateFilterButtons_def)
  from each count cats kinds show ?thesis
    by (simp only: controls_applyFilter)
qed

theorem applyFilter_marks_matching_controls_witness:
  "map is_active (controls (snd (applyFilter reference_runtime (Some ''bebidas'')
       ((sample_page :: catalog page)\<lparr>data := Some sample_catalog\<rparr>))))
     = [False, False, True, False]
   \<and> map aria_pressed (controls (snd (applyFilter reference_runtime (Some ''bebidas'')
       ((sample_page :: catalog page)\<lparr>data := Some sample_catalog\<rparr>))))
     = [Some ''false'', Some ''false'', Some ''true'', Some ''false'']"
proof -
  let ?p = "(sample_page :: catalog page)\<lparr>data := Some sample_catalog\<rparr>"
  let ?cs = "controls (snd (applyFilter reference_runtime (Some ''bebidas'') ?p))"
  have before: "map dataset_category (controls ?p)
        = [Some ''all'', Some ''entradas'', Some ''bebidas'', Some ''postres'']"
    and kinds: "map is_filter_btn (controls ?p) = [True, True, True, True]"
    by (simp_all add: sample_page_def sample_controls_def createFilterButton_def is_filter_btn_def)
  from applyFilter_marks_matching_controls [where rt = reference_runtime
      and category = "Some ''bebidas''" and p = ?p] before kinds
  have each: "\<forall>b \<in> set ?cs. is_filter_btn b \<longrightarrow>
          (is_active b \<longleftrightarrow> dataset_category b = Some ''bebidas'')
          \<and> aria_pressed b
              = Some (if dataset_category b = Some ''bebidas'' then ''true'' else ''false'')"
    and cats: "map dataset_category ?cs
        = [Some ''all'', Some ''entradas'', Some ''bebidas'', Some ''postres'']"
    and btns: "map is_filter_btn ?cs = [True, True, True, True]"
    by simp_all
  from cats obtain a b c d where cs: "?cs = [a, b, c, d]"
    by (auto simp add: map_eq_Cons_conv)
  with each cats btns show ?thesis
    by simp
qed

text \<open>
  C3 as stated fails for an argument that matches no control: with the controls for
  \<^verbatim>\<open>all\<close>, \<^verbatim>\<open>entradas\<close>, \<^verbatim>\<open>bebidas\<close> and \<^verbatim>\<open>postres\<close>, \<^verbatim>\<open>applyFilter("sopas")\<close> leaves no
  control with the active marker and every control with \<^verbatim>\<open>aria-pressed\<close> \<^verbatim>\<open>false\<close>.
\<close>

theorem applyFilter_unknown_category_marks_none:
  "filter is_active (controls (snd (applyFilter reference_runtime (Some ''sopas'')
       ((sample_page :: catalog page)\<lparr>data := Some sample_catalog\<rparr>)))) = []
   \<and> map aria_pressed (controls (snd (applyFilter reference_runtime (Some ''sopas'')
       ((sample_page :: catalog page)\<lparr>data := Some sample_catalog\<rparr>))))
     = [Some ''false'', Some ''false'', Some ''false'', Some ''false'']"
  by (simp add: controls_applyFilter sample_page_def sample_controls_def createFilterButton_def
      updateFilterButtons_def update_button_def is_filter_btn_def is_active_def Let_def
      classList_toggle_def classList_add_def classList_remove_def bool_string_def)

lemma find_active_none: "(\<forall>b \<in> set cs. \<not> is_active b) \<Longrightarrow> find is_active cs = None"
  by (induction cs) simp_all

lemma find_active_first:
  "(\<forall>x \<in> set xs. \<not> is_active x) \<Longrightarrow> is_active b \<Longrightarrow> find is_active (xs @ b # ys) = Some b"
  by (induction xs) simp_all

lemma find_active_member: "find is_active cs = Some x \<Longrightarrow> x \<in> set cs \<and> is_active x"
  by (induction cs) (simp_all split: if_splits)

lemma find_active_only:
  assumes "b0 \<in> set cs" "is_active b0" "\<forall>b \<in> set cs. is_active b \<longrightarrow> b = b0"
  shows "find is_active cs = Some b0"
proof (cases "find is_active cs")
  case None
  with find_None_iff [of is_active cs] have "\<not> (\<exists>x. x \<in> set cs \<and> is_active x)"
    by simp
  with assms(1,2) show ?thesis
    by blast
next
  case (Some x)
  with find_active_member [of cs x] assms(3) show ?thesis
    by blast
qed

text \<open>
  C10. \<^verbatim>\<open>getActiveCategory()\<close> returns \<^verbatim>\<open>all\<close> when no element carries the active marker, also
  on a page without any control, and otherwise the category attribute of the element that
  carries it (of the first one in document order, should there be several).
\<close>

theorem getActiveCategory_reads_marker:
  "((\<forall>b \<in> set (controls p). \<not> is_active b) \<longrightarrow> getActiveCategory p = Some ''all'')
   \<and> (controls q = [] \<longrightarrow> getActiveCategory q = Some ''all'')
   \<and> (b0 \<in> set (controls r) \<and> is_active b0 \<and> (\<forall>b \<in> set (controls r). is_active b \<longrightarrow> b = b0)
        \<longrightarrow> getActiveCategory r = dataset_category b0)
   \<and> (controls u = before @ b1 # after \<and> (\<forall>b \<in> set before. \<not> is_active b) \<and> is_active b1
        \<longrightarrow> getActiveCategory u = dataset_category b1)"
proof (intro conjI impI)
  assume "\<forall>b \<in> set (controls p). \<not> is_active b"
  then show "getActiveCategory p = Some ''all''"
    by (simp add: getActiveCategory_def find_active_none)
next
  assume "controls q = []"
  then show "getActiveCategory q = Some ''all''"
    by (simp add: getActiveCategory_def)
next
  assume "b0 \<in> set (controls r) \<and> is_active b0
      \<and> (\<forall>b \<in> set (controls r). is_active b \<longrightarrow> b = b0)"
  then have "find is_active (controls r) = Some b0"
    using find_active_only [of b0 "controls r"] by blast
  then show "getActiveCategory r = dataset_category b0"
    by (simp add: getActiveCategory_def)
next
  assume "controls u = before @ b1 # after \<and> (\<forall>b \<in> set before. \<not> is_active b) \<and> is_active b1"
  then have "find is_active (controls u) = Some b1"
    using find_active_first [of before b1 after] by simp
  then show "getActiveCategory u = dataset_category b1"
    by (simp add: getActiveCategory_def)
qed

theorem getActiveCategory_reads_marker_witness:
  "getActiveCategory ((sample_page :: catalog page)\<lparr>controls := []\<rparr>) = Some ''all''
   \<and> getActiveCategory
        ((sample_page :: catalog page)\<lparr>controls := [createFilterButton ''postres'' ''Postres'' False]\<rparr>)
       = Some ''all''
   \<and> getActiveCategory
        ((sample_page :: catalog page)\<lparr>controls :=
           [createFilterButton ''all'' ''Todos'' False,
            createFilterButton ''bebidas'' ''Bebidas'' True]\<rparr>)
       = Some ''bebidas''"
proof -
  let ?q = "(sample_page :: catalog page)\<lparr>controls := []\<rparr>"
  let ?off = "createFilterButton ''postres'' ''Postres'' False"
  let ?p = "(sample_page :: catalog page)\<lparr>controls := [?off]\<rparr>"
  let ?all = "createFilterButton ''all'' ''Todos'' False"
  let ?on = "createFilterButton ''bebidas'' ''Bebidas'' True"
  let ?r = "(sample_page :: catalog page)\<lparr>controls := [?all, ?on]\<rparr>"
  have p: "\<forall>b \<in> set (controls ?p). \<not> is_active b"
    by (simp add: createFilterButton_def is_active_def)
  have q: "controls ?q = []"
    by simp
  have r: "?on \<in> set (controls ?r) \<and> is_active ?on
      \<and> (\<forall>b \<in> set (controls ?r). is_active b \<longrightarrow> b = ?on)"
    by (simp add: createFilterButton_def is_active_def)
  have u: "controls ?r = [?all] @ ?on # [] \<and> (\<forall>b \<in> set [?all]. \<not> is_active b) \<and> is_active ?on"
    by (simp add: createFilterButton_def is_active_def)
  have cat: "dataset_category ?on = Some ''bebidas''"
    by (simp add: createFilterButton_def)
  from getActiveCategory_reads_marker [of ?p ?q ?on ?r ?r "[?all]" ?on "[]"] p q r u cat
  show ?thesis
    by simp
qed

section \<open>Properties of the modal\<close>












end
